theory Spec2Isabelle
  imports Complex_Main "HOL-Library.Word"
begin

section \<open>Python values of the metadata analyzer\<close>

subsection \<open>Exceptions\<close>

text \<open>
  The exceptions (subclasses of \<^verbatim>\<open>Exception\<close>) that the operations of \<^verbatim>\<open>app.py\<close>
  can meet. A computation that may raise has the type \<open>exn + 'a\<close>: \<open>Inl e\<close> is the
  raised exception, \<open>Inr v\<close> the returned value.
\<close>

datatype exn =
    TypeError
  | ValueError
  | ZeroDivisionError
  | OverflowError
  | AttributeError
  | OtherError

subsection \<open>Floats\<close>

text \<open>
  A Python float is an IEEE-754 binary64 value: a finite value is a rational number
  (\<open>Fin 0\<close> is \<^verbatim>\<open>0.0\<close>), and there are the negative zero, the two infinities and NaN.
  Every arithmetic operation computes the exact rational result and rounds it to the
  nearest representable value, ties to even (\<open>ieee_round\<close>): 53 significant bits, the
  least exponent of a subnormal being \<open>-1074\<close>, and overflow to infinity from
  \<open>2 ^ 1024\<close> on.
\<close>

datatype pyfloat = Fin rat | NegZero | PInf | NInf | NaN

fun bit_length :: "nat \<Rightarrow> nat" where
  "bit_length n = (if n = 0 then 0 else Suc (bit_length (n div 2)))"

declare bit_length.simps [simp del]

definition pow2 :: "int \<Rightarrow> rat" where
  "pow2 k = (if 0 \<le> k then 2 ^ nat k else 1 / 2 ^ nat (- k))"

definition round_half_even :: "rat \<Rightarrow> int" where
  "round_half_even x =
     (if x - of_int \<lfloor>x\<rfloor> < 1 / 2 then \<lfloor>x\<rfloor>
      else if 1 / 2 < x - of_int \<lfloor>x\<rfloor> then \<lfloor>x\<rfloor> + 1
      else if even \<lfloor>x\<rfloor> then \<lfloor>x\<rfloor> else \<lfloor>x\<rfloor> + 1)"

text \<open>
  \<open>floor_log2 m\<close> is the integer \<open>l\<close> with \<open>2 ^ l \<le> m < 2 ^ (l + 1)\<close>, for \<open>0 < m\<close>:
  the bit length of the integer part of \<open>m\<close> (or of \<open>1 / m\<close>) gives it up to one.
\<close>

definition log2_estimate :: "rat \<Rightarrow> int" where
  "log2_estimate m =
     (if 1 \<le> m then int (bit_length (nat \<lfloor>m\<rfloor>)) - 1
      else - int (bit_length (nat \<lfloor>1 / m\<rfloor>)))"

definition floor_log2 :: "rat \<Rightarrow> int" where
  "floor_log2 m =
     (if pow2 (log2_estimate m + 1) \<le> m then log2_estimate m + 1 else log2_estimate m)"

text \<open>
  The exponent of the last bit of the floats around \<open>m\<close>, and \<open>m\<close> in units of that
  bit, rounded.
\<close>

definition quantum_exponent :: "rat \<Rightarrow> int" where
  "quantum_exponent m = max (floor_log2 m - 52) (- 1074)"

definition significand :: "rat \<Rightarrow> int" where
  "significand m = round_half_even (m / pow2 (quantum_exponent m))"

definition signed_zero :: "bool \<Rightarrow> pyfloat" where
  "signed_zero neg = (if neg then NegZero else Fin 0)"

definition signed_inf :: "bool \<Rightarrow> pyfloat" where
  "signed_inf neg = (if neg then NInf else PInf)"

definition ieee_round :: "rat \<Rightarrow> pyfloat" where
  "ieee_round x =
     (if x = 0 then Fin 0
      else if 2 ^ 1024 \<le> of_int (significand \<bar>x\<bar>) * pow2 (quantum_exponent \<bar>x\<bar>)
        then signed_inf (x < 0)
      else if significand \<bar>x\<bar> = 0 then signed_zero (x < 0)
      else Fin (sgn x * (of_int (significand \<bar>x\<bar>) * pow2 (quantum_exponent \<bar>x\<bar>))))"

text \<open>\<^verbatim>\<open>float(n)\<close> for an int: the nearest float, or OverflowError.\<close>

definition float_of_int :: "int \<Rightarrow> exn + pyfloat" where
  "float_of_int n =
     (case ieee_round (of_int n) of
        PInf \<Rightarrow> Inl OverflowError
      | NInf \<Rightarrow> Inl OverflowError
      | f \<Rightarrow> Inr f)"

definition float_is_zero :: "pyfloat \<Rightarrow> bool" where
  "float_is_zero a = (a = Fin 0 \<or> a = NegZero)"

text \<open>The sign bit of a float that is not NaN.\<close>

fun float_negative :: "pyfloat \<Rightarrow> bool" where
  "float_negative (Fin q) = (q < 0)"
| "float_negative NegZero = True"
| "float_negative PInf = False"
| "float_negative NInf = True"
| "float_negative NaN = False"

fun float_neg :: "pyfloat \<Rightarrow> pyfloat" where
  "float_neg (Fin q) = (if q = 0 then NegZero else Fin (- q))"
| "float_neg NegZero = Fin 0"
| "float_neg PInf = NInf"
| "float_neg NInf = PInf"
| "float_neg NaN = NaN"

fun float_add :: "pyfloat \<Rightarrow> pyfloat \<Rightarrow> pyfloat" where
  "float_add NaN _ = NaN"
| "float_add _ NaN = NaN"
| "float_add PInf NInf = NaN"
| "float_add NInf PInf = NaN"
| "float_add PInf _ = PInf"
| "float_add _ PInf = PInf"
| "float_add NInf _ = NInf"
| "float_add _ NInf = NInf"
| "float_add NegZero b = b"
| "float_add a NegZero = a"
| "float_add (Fin a) (Fin b) = ieee_round (a + b)"

text \<open>
  IEEE division. Python's \<^verbatim>\<open>/\<close> is \<open>py_truediv\<close> below, which raises on a zero
  divisor before dividing; \<open>float_div\<close> itself gives the IEEE result there.
\<close>

definition float_is_inf :: "pyfloat \<Rightarrow> bool" where
  "float_is_inf a = (a = PInf \<or> a = NInf)"

definition float_div :: "pyfloat \<Rightarrow> pyfloat \<Rightarrow> pyfloat" where
  "float_div a b =
     (if a = NaN \<or> b = NaN then NaN
      else if float_is_inf a \<and> float_is_inf b then NaN
      else if float_is_zero a \<and> float_is_zero b then NaN
      else if float_is_inf a \<or> float_is_zero b
        then signed_inf (float_negative a \<noteq> float_negative b)
      else if float_is_zero a \<or> float_is_inf b
        then signed_zero (float_negative a \<noteq> float_negative b)
      else (case (a, b) of (Fin x, Fin y) \<Rightarrow> ieee_round (x / y) | _ \<Rightarrow> NaN))"

definition py_truediv :: "pyfloat \<Rightarrow> pyfloat \<Rightarrow> exn + pyfloat" where
  "py_truediv a b =
     (if float_is_zero b then Inl ZeroDivisionError else Inr (float_div a b))"

text \<open>\<^verbatim>\<open>a < b\<close> on floats: false as soon as one side is NaN; the two zeros are equal.\<close>

fun float_lt :: "pyfloat \<Rightarrow> pyfloat \<Rightarrow> bool" where
  "float_lt NaN _ = False"
| "float_lt _ NaN = False"
| "float_lt PInf _ = False"
| "float_lt _ PInf = True"
| "float_lt _ NInf = False"
| "float_lt NInf _ = True"
| "float_lt NegZero (Fin b) = (0 < b)"
| "float_lt (Fin a) NegZero = (a < 0)"
| "float_lt NegZero NegZero = False"
| "float_lt (Fin a) (Fin b) = (a < b)"

subsection \<open>Decimal text\<close>

definition digit_char :: "nat \<Rightarrow> char" where
  "digit_char d = ''0123456789'' ! d"

fun str_nat :: "nat \<Rightarrow> string" where
  "str_nat n = (if n < 10 then [digit_char n] else str_nat (n div 10) @ [digit_char (n mod 10)])"

declare str_nat.simps [simp del]

text \<open>\<^verbatim>\<open>str(n)\<close> for an int.\<close>

definition str_int :: "int \<Rightarrow> string" where
  "str_int n = (if n < 0 then CHR ''-'' # str_nat (nat (- n)) else str_nat (nat n))"

text \<open>
  The format \<^verbatim>\<open>{x:.2f}\<close>: the exact value of the float rounded to two decimals,
  ties to even, with the sign of the float in front.
\<close>

definition hundredths :: "rat \<Rightarrow> nat" where
  "hundredths m = nat (round_half_even (m * 100))"

definition fixed2 :: "rat \<Rightarrow> string" where
  "fixed2 m =
     str_nat (hundredths m div 100) @ ''.''
       @ [digit_char (hundredths m mod 100 div 10), digit_char (hundredths m mod 10)]"

fun format_2f :: "pyfloat \<Rightarrow> string" where
  "format_2f (Fin q) = (if q < 0 then ''-'' @ fixed2 (- q) else fixed2 q)"
| "format_2f NegZero = ''-0.00''"
| "format_2f PInf = ''inf''"
| "format_2f NInf = ''-inf''"
| "format_2f NaN = ''nan''"

section \<open>File sizes\<close>

text \<open>
  \<^verbatim>\<open>format_size\<close> (lines 20 to 27). The loop over \<^verbatim>\<open>units\<close> is \<open>format_size_loop\<close>;
  \<^verbatim>\<open>size /= 1024.0\<close> divides by a literal that is not zero, so it cannot raise.
\<close>

definition units :: "string list" where
  "units = [''B'', ''KB'', ''MB'', ''GB'', ''TB'']"

fun format_size_loop :: "string list \<Rightarrow> pyfloat \<Rightarrow> string" where
  "format_size_loop [] sz = format_2f sz @ '' PB''"
| "format_size_loop (u # rest) sz =
     (if float_lt sz (Fin 1024) then format_2f sz @ '' '' @ u
      else format_size_loop rest (float_div sz (Fin 1024)))"

definition format_size :: "int \<Rightarrow> exn + string" where
  "format_size bytes_size =
     (case float_of_int bytes_size of
        Inl e \<Rightarrow> Inl e
      | Inr sz \<Rightarrow> Inr (format_size_loop units sz))"

text \<open>
  The wording of the specification, to compare \<open>format_size\<close> with: the value after \<open>k\<close>
  divisions by 1024, and the six unit names.
\<close>

definition ladder :: "pyfloat \<Rightarrow> nat \<Rightarrow> pyfloat" where
  "ladder x k = ((\<lambda>y. float_div y (Fin 1024)) ^^ k) x"

definition unit_names :: "string list" where
  "unit_names = units @ [''PB'']"

section \<open>Values\<close>

text \<open>
  The values that reach the analyzer. The EXIF decoder is an external library, so a raw tag
  value is any of: \<^verbatim>\<open>None\<close>, a bool, an int, a float, a \<^verbatim>\<open>str\<close>, a \<^verbatim>\<open>bytes\<close> (or
  \<^verbatim>\<open>bytearray\<close>), a dict, a list, a tuple, or an object of a class of the library (such
  as a rational). The keys of a dict are tag numbers or names. A dict is the list of its
  items in insertion order. A string is the list of its characters.

  An object of a library class is known by what the operations of \<^verbatim>\<open>app.py\<close> observe of
  it: the result of \<^verbatim>\<open>float(obj)\<close>, its truth value, the result of \<^verbatim>\<open>str(obj)\<close>, and its
  attributes (read with \<^verbatim>\<open>getattr(obj, name, None)\<close>).
\<close>

type_synonym byte = "8 word"

datatype key = KInt int | KStr string

datatype pyval =
    PNone
  | PBool bool
  | PInt int
  | PFloat pyfloat
  | PStr string
  | PBytes "byte list"
  | PDict "(key \<times> pyval) list"
  | PList "pyval list"
  | PTuple "pyval list"
  | PObj (obj_float: "exn + pyfloat") (obj_truth: bool) (obj_str: "exn + string")
      (obj_attrs: "(string \<times> pyval) list")

subsection \<open>The runtime\<close>

text \<open>
  What the Python runtime and the imaging library supply, and \<^verbatim>\<open>app.py\<close> only calls:
  \<^verbatim>\<open>bytes.decode(errors="ignore")\<close>, \<^verbatim>\<open>str\<close> of a bytes, of a float and of a container,
  \<^verbatim>\<open>float\<close> of a \<^verbatim>\<open>str\<close> and of a bytes (\<open>None\<close>: ValueError), \<^verbatim>\<open>str.upper\<close>, and the
  tables \<^verbatim>\<open>TAGS\<close> and \<^verbatim>\<open>GPSTAGS\<close> of \<^verbatim>\<open>PIL.ExifTags\<close>. \<^verbatim>\<open>str.upper\<close> follows the
  Unicode case mappings: it maps a whole text to a text, and the upper case of one
  character may be several (of the sharp s, \<^verbatim>\<open>SS\<close>).
\<close>

record runtime =
  decode_ignore :: "byte list \<Rightarrow> exn + string"
  bytes_repr :: "byte list \<Rightarrow> string"
  float_repr :: "pyfloat \<Rightarrow> string"
  container_repr :: "pyval \<Rightarrow> exn + string"
  float_of_str :: "string \<Rightarrow> pyfloat option"
  float_of_bytes :: "byte list \<Rightarrow> pyfloat option"
  str_upper :: "string \<Rightarrow> string"
  TAGS :: "int \<Rightarrow> string option"
  GPSTAGS :: "int \<Rightarrow> string option"

subsection \<open>Raising computations\<close>

definition and_then :: "exn + 'a \<Rightarrow> ('a \<Rightarrow> exn + 'b) \<Rightarrow> exn + 'b" where
  "and_then m f = (case m of Inl e \<Rightarrow> Inl e | Inr v \<Rightarrow> f v)"

text \<open>A comprehension evaluates its elements in order and stops at the first exception.\<close>

fun collect :: "(exn + 'a) list \<Rightarrow> exn + 'a list" where
  "collect [] = Inr []"
| "collect (Inl e # rest) = Inl e"
| "collect (Inr v # rest) = (case collect rest of Inl e \<Rightarrow> Inl e | Inr vs \<Rightarrow> Inr (v # vs))"

subsection \<open>Dictionaries\<close>

text \<open>\<^verbatim>\<open>d[k] = v\<close>: a known key keeps its place and takes the new value, a new key goes last.\<close>

fun dict_set :: "('k \<times> 'v) list \<Rightarrow> 'k \<Rightarrow> 'v \<Rightarrow> ('k \<times> 'v) list" where
  "dict_set [] k v = [(k, v)]"
| "dict_set ((k', v') # rest) k v =
     (if k' = k then (k', v) # rest else (k', v') # dict_set rest k v)"

definition dict_of_items :: "('k \<times> 'v) list \<Rightarrow> ('k \<times> 'v) list" where
  "dict_of_items items = foldl (\<lambda>d (k, v). dict_set d k v) [] items"

text \<open>\<^verbatim>\<open>d.get(k)\<close>, with \<^verbatim>\<open>None\<close> for a missing key.\<close>

definition dict_get :: "('k \<times> pyval) list \<Rightarrow> 'k \<Rightarrow> pyval" where
  "dict_get d k = (case map_of d k of None \<Rightarrow> PNone | Some v \<Rightarrow> v)"

subsection \<open>Built-in operations\<close>

text \<open>Truth value, as \<^verbatim>\<open>if x\<close>, \<^verbatim>\<open>not x\<close> and \<^verbatim>\<open>x or y\<close> take it.\<close>

fun py_bool :: "pyval \<Rightarrow> bool" where
  "py_bool PNone = False"
| "py_bool (PBool b) = b"
| "py_bool (PInt n) = (n \<noteq> 0)"
| "py_bool (PFloat f) = (\<not> float_is_zero f)"
| "py_bool (PStr s) = (s \<noteq> [])"
| "py_bool (PBytes bs) = (bs \<noteq> [])"
| "py_bool (PDict kvs) = (kvs \<noteq> [])"
| "py_bool (PList xs) = (xs \<noteq> [])"
| "py_bool (PTuple xs) = (xs \<noteq> [])"
| "py_bool (PObj fl tr st attrs) = tr"

definition py_or :: "pyval \<Rightarrow> pyval \<Rightarrow> pyval" where
  "py_or a b = (if py_bool a then a else b)"

text \<open>
  \<^verbatim>\<open>getattr(obj, name, None)\<close>. An int (and a bool) has the attributes \<^verbatim>\<open>numerator\<close> and
  \<^verbatim>\<open>denominator\<close>; the other built-in types have none of the four names that are read.
\<close>

fun py_getattr :: "pyval \<Rightarrow> string \<Rightarrow> pyval" where
  "py_getattr (PObj fl tr st attrs) name = (case map_of attrs name of None \<Rightarrow> PNone | Some v \<Rightarrow> v)"
| "py_getattr (PInt n) name =
     (if name = ''numerator'' then PInt n else if name = ''denominator'' then PInt 1 else PNone)"
| "py_getattr (PBool b) name =
     (if name = ''numerator'' then PInt (if b then 1 else 0)
      else if name = ''denominator'' then PInt 1 else PNone)"
| "py_getattr v name = PNone"

text \<open>\<^verbatim>\<open>float(x)\<close>.\<close>

fun py_float :: "runtime \<Rightarrow> pyval \<Rightarrow> exn + pyfloat" where
  "py_float R PNone = Inl TypeError"
| "py_float R (PBool b) = Inr (Fin (if b then 1 else 0))"
| "py_float R (PInt n) = float_of_int n"
| "py_float R (PFloat f) = Inr f"
| "py_float R (PStr s) = (case float_of_str R s of None \<Rightarrow> Inl ValueError | Some f \<Rightarrow> Inr f)"
| "py_float R (PBytes bs) = (case float_of_bytes R bs of None \<Rightarrow> Inl ValueError | Some f \<Rightarrow> Inr f)"
| "py_float R (PDict kvs) = Inl TypeError"
| "py_float R (PList xs) = Inl TypeError"
| "py_float R (PTuple xs) = Inl TypeError"
| "py_float R (PObj fl tr st attrs) = fl"

text \<open>\<^verbatim>\<open>str(x)\<close>, and \<^verbatim>\<open>str(k)\<close> for the key of a dict.\<close>

fun py_str :: "runtime \<Rightarrow> pyval \<Rightarrow> exn + string" where
  "py_str R PNone = Inr ''None''"
| "py_str R (PBool b) = Inr (if b then ''True'' else ''False'')"
| "py_str R (PInt n) = Inr (str_int n)"
| "py_str R (PFloat f) = Inr (float_repr R f)"
| "py_str R (PStr s) = Inr s"
| "py_str R (PBytes bs) = Inr (bytes_repr R bs)"
| "py_str R (PObj fl tr st attrs) = st"
| "py_str R v = container_repr R v"

fun str_key :: "key \<Rightarrow> string" where
  "str_key (KInt n) = str_int n"
| "str_key (KStr s) = s"

text \<open>\<^verbatim>\<open>f.is_integer()\<close> and \<^verbatim>\<open>int(f)\<close> for a float.\<close>

fun float_is_integer :: "pyfloat \<Rightarrow> bool" where
  "float_is_integer (Fin q) = (of_int \<lfloor>q\<rfloor> = q)"
| "float_is_integer NegZero = True"
| "float_is_integer f = False"

fun int_of_float :: "pyfloat \<Rightarrow> exn + int" where
  "int_of_float (Fin q) = Inr (if 0 \<le> q then \<lfloor>q\<rfloor> else \<lceil>q\<rceil>)"
| "int_of_float NegZero = Inr 0"
| "int_of_float NaN = Inl ValueError"
| "int_of_float f = Inl OverflowError"

text \<open>The elements of a list or a tuple: \<^verbatim>\<open>isinstance(x, (list, tuple))\<close>.\<close>

fun seq_items :: "pyval \<Rightarrow> pyval list option" where
  "seq_items (PList xs) = Some xs"
| "seq_items (PTuple xs) = Some xs"
| "seq_items v = None"

text \<open>\<^verbatim>\<open>s.startswith(p)\<close>.\<close>

definition startswith :: "string \<Rightarrow> string \<Rightarrow> bool" where
  "startswith s p = (take (length p) s = p)"

section \<open>The sanitizer\<close>

text \<open>
  \<^verbatim>\<open>sanitize_for_json\<close> (lines 65 to 124). \<open>float_or_int\<close> is the body of the first
  \<^verbatim>\<open>try\<close> after the conversion: an integral float becomes an int. \<open>float_quotient\<close> is
  \<^verbatim>\<open>float(num) / float(den)\<close>. \<open>attr_or\<close> is
  \<^verbatim>\<open>getattr(obj, a, None) or getattr(obj, b, None)\<close>. \<open>sanitize_rational\<close> is the second
  \<^verbatim>\<open>try\<close> (lines 106 to 118): \<open>Some\<close> when it returns a value, \<open>None\<close> when control
  falls through to the fallback.
\<close>

definition float_or_int :: "pyfloat \<Rightarrow> exn + pyval" where
  "float_or_int f =
     (if float_is_integer f then and_then (int_of_float f) (\<lambda>n. Inr (PInt n))
      else Inr (PFloat f))"

definition float_quotient :: "runtime \<Rightarrow> pyval \<Rightarrow> pyval \<Rightarrow> exn + pyfloat" where
  "float_quotient R num den =
     and_then (py_float R num) (\<lambda>a. and_then (py_float R den) (\<lambda>b. py_truediv a b))"

definition attr_or :: "pyval \<Rightarrow> string \<Rightarrow> string \<Rightarrow> pyval" where
  "attr_or obj a b = py_or (py_getattr obj a) (py_getattr obj b)"

definition sanitize_rational :: "runtime \<Rightarrow> pyval \<Rightarrow> pyval option" where
  "sanitize_rational R obj =
     (if attr_or obj ''numerator'' ''num'' \<noteq> PNone \<and> attr_or obj ''denominator'' ''den'' \<noteq> PNone
      then (case and_then (float_quotient R (attr_or obj ''numerator'' ''num'')
                             (attr_or obj ''denominator'' ''den'')) float_or_int of
              Inl e \<Rightarrow> None
            | Inr v \<Rightarrow> Some v)
      else None)"

definition decode_bytes :: "runtime \<Rightarrow> byte list \<Rightarrow> string" where
  "decode_bytes R bs =
     (case decode_ignore R bs of Inl e \<Rightarrow> bytes_repr R bs | Inr s \<Rightarrow> s)"

fun sanitize_for_json :: "runtime \<Rightarrow> pyval \<Rightarrow> exn + pyval" where
  "sanitize_for_json R PNone = Inr PNone"
| "sanitize_for_json R (PBool b) = Inr (PBool b)"
| "sanitize_for_json R (PInt n) = Inr (PInt n)"
| "sanitize_for_json R (PFloat f) = Inr (PFloat f)"
| "sanitize_for_json R (PStr s) = Inr (PStr s)"
| "sanitize_for_json R (PBytes bs) = Inr (PStr (decode_bytes R bs))"
| "sanitize_for_json R (PDict kvs) =
     and_then
       (collect (map (\<lambda>(k, v). and_then (sanitize_for_json R v) (\<lambda>w. Inr (KStr (str_key k), w))) kvs))
       (\<lambda>items. Inr (PDict (dict_of_items items)))"
| "sanitize_for_json R (PList xs) =
     and_then (collect (map (sanitize_for_json R) xs)) (\<lambda>ys. Inr (PList ys))"
| "sanitize_for_json R (PTuple xs) =
     and_then (collect (map (sanitize_for_json R) xs)) (\<lambda>ys. Inr (PList ys))"
| "sanitize_for_json R obj =
     (case and_then (py_float R obj) float_or_int of
        Inr v \<Rightarrow> Inr v
      | Inl e \<Rightarrow>
          (case sanitize_rational R obj of
             Some v \<Rightarrow> Inr v
           | None \<Rightarrow> (case py_str R obj of Inr s \<Rightarrow> Inr (PStr s) | Inl e' \<Rightarrow> Inr PNone)))"

text \<open>
  The values that JSON holds, which the specification calls sanitized values: \<^verbatim>\<open>None\<close>, a
  bool, an int, a float, a \<^verbatim>\<open>str\<close>, a list of such values, and a dict of such values
  under keys that are strings (no two of them equal, as in any dict).
\<close>

fun is_str_key :: "key \<Rightarrow> bool" where
  "is_str_key (KStr s) = True"
| "is_str_key (KInt n) = False"

fun json_safe :: "pyval \<Rightarrow> bool" where
  "json_safe PNone = True"
| "json_safe (PBool b) = True"
| "json_safe (PInt n) = True"
| "json_safe (PFloat f) = True"
| "json_safe (PStr s) = True"
| "json_safe (PList xs) = list_all json_safe xs"
| "json_safe (PDict kvs) =
     (distinct (map fst kvs) \<and> list_all (\<lambda>(k, v). is_str_key k \<and> json_safe v) kvs)"
| "json_safe v = False"

section \<open>GPS coordinates\<close>

text \<open>
  \<^verbatim>\<open>_to_float_rational\<close> (lines 128 to 146) and \<^verbatim>\<open>_convert_to_degrees\<close> (lines 149 to
  164); \<open>convert_to_degrees_body\<close> is the body of its \<^verbatim>\<open>try\<close>.
\<close>

definition to_float_rational :: "runtime \<Rightarrow> pyval \<Rightarrow> exn + pyfloat" where
  "to_float_rational R r =
     (case py_float R r of
        Inr f \<Rightarrow> Inr f
      | Inl e \<Rightarrow>
          (case seq_items r of
             Some [num, den] \<Rightarrow> float_quotient R num den
           | _ \<Rightarrow>
               (if attr_or r ''numerator'' ''num'' \<noteq> PNone \<and> attr_or r ''denominator'' ''den'' \<noteq> PNone
                then float_quotient R (attr_or r ''numerator'' ''num'') (attr_or r ''denominator'' ''den'')
                else Inl ValueError)))"

definition convert_to_degrees_body :: "runtime \<Rightarrow> pyval \<Rightarrow> exn + pyfloat" where
  "convert_to_degrees_body R v =
     (case seq_items v of
        Some [x, y, z] \<Rightarrow>
          and_then (to_float_rational R x) (\<lambda>d.
          and_then (to_float_rational R y) (\<lambda>m.
          and_then (to_float_rational R z) (\<lambda>s.
          and_then (py_truediv m (Fin 60)) (\<lambda>m60.
          and_then (py_truediv s (Fin 3600)) (\<lambda>s3600.
          Inr (float_add (float_add d m60) s3600))))))
      | _ \<Rightarrow> to_float_rational R v)"

definition convert_to_degrees :: "runtime \<Rightarrow> pyval \<Rightarrow> exn + pyfloat option" where
  "convert_to_degrees R v =
     (case convert_to_degrees_body R v of Inl e \<Rightarrow> Inr None | Inr f \<Rightarrow> Inr (Some f))"

text \<open>
  \<^verbatim>\<open>get_gps_info\<close> (lines 167 to 212). \<open>gps_tag_name\<close> is \<^verbatim>\<open>GPSTAGS.get(key, key)\<close>
  and \<open>resolve_gps_tags\<close> the loop of lines 173 to 176, which builds \<^verbatim>\<open>gps_data_raw\<close>.
  \<open>decode_if_bytes\<close> is lines 184 to 193 (and again lines 293 to 297).
  \<open>signed_coordinate\<close> is lines 195 to 198 for the latitude (key \<^verbatim>\<open>GPSLatitude\<close>, letter
  \<^verbatim>\<open>S\<close>) and lines 200 to 203 for the longitude (key \<^verbatim>\<open>GPSLongitude\<close>, letter \<^verbatim>\<open>W\<close>).
  \<open>gps_report_of\<close> is lines 179 to 212, from \<^verbatim>\<open>gps_data_raw\<close> to the returned dict.
\<close>

record gps_report =
  raw :: "(key \<times> pyval) list"
  latitude :: "pyfloat option"
  longitude :: "pyfloat option"

fun gps_tag_name :: "runtime \<Rightarrow> key \<Rightarrow> key" where
  "gps_tag_name R (KInt i) = (case GPSTAGS R i of None \<Rightarrow> KInt i | Some name \<Rightarrow> KStr name)"
| "gps_tag_name R (KStr s) = KStr s"

fun decode_if_bytes :: "runtime \<Rightarrow> pyval \<Rightarrow> pyval" where
  "decode_if_bytes R (PBytes bs) = PStr (decode_bytes R bs)"
| "decode_if_bytes R v = v"

definition signed_coordinate ::
  "runtime \<Rightarrow> (key \<times> pyval) list \<Rightarrow> string \<Rightarrow> pyval \<Rightarrow> string \<Rightarrow> exn + pyfloat option" where
  "signed_coordinate R gps_data_raw name ref letter =
     (case map_of gps_data_raw (KStr name) of
        None \<Rightarrow> Inr None
      | Some v \<Rightarrow>
          and_then (convert_to_degrees R v) (\<lambda>c.
            case c of
              None \<Rightarrow> Inr None
            | Some x \<Rightarrow>
                if py_bool ref
                then and_then (py_str R ref) (\<lambda>s.
                       Inr (Some (if startswith (str_upper R s) letter then float_neg x else x)))
                else Inr (Some x)))"

definition resolve_gps_tags :: "runtime \<Rightarrow> (key \<times> pyval) list \<Rightarrow> (key \<times> pyval) list" where
  "resolve_gps_tags R kvs = dict_of_items (map (\<lambda>(k, v). (gps_tag_name R k, v)) kvs)"

definition gps_report_of :: "runtime \<Rightarrow> (key \<times> pyval) list \<Rightarrow> exn + gps_report" where
  "gps_report_of R gps_data_raw =
     and_then (signed_coordinate R gps_data_raw ''GPSLatitude''
                 (decode_if_bytes R (dict_get gps_data_raw (KStr ''GPSLatitudeRef''))) ''S'') (\<lambda>lat.
     and_then (signed_coordinate R gps_data_raw ''GPSLongitude''
                 (decode_if_bytes R (dict_get gps_data_raw (KStr ''GPSLongitudeRef''))) ''W'') (\<lambda>lon.
     and_then (collect (map (\<lambda>(k, v). and_then (sanitize_for_json R v) (\<lambda>w. Inr (k, w)))
                          gps_data_raw)) (\<lambda>items.
     Inr \<lparr>raw = dict_of_items items, latitude = lat, longitude = lon\<rparr>)))"

definition get_gps_info :: "runtime \<Rightarrow> (string \<times> pyval) list \<Rightarrow> exn + gps_report option" where
  "get_gps_info R exif_data =
     (if \<not> py_bool (dict_get exif_data ''GPSInfo'') then Inr None
      else
        (case dict_get exif_data ''GPSInfo'' of
           PDict kvs \<Rightarrow> and_then (gps_report_of R (resolve_gps_tags R kvs)) (\<lambda>g. Inr (Some g))
         | _ \<Rightarrow> Inl AttributeError))"

section \<open>EXIF tags\<close>

text \<open>
  \<^verbatim>\<open>get_exif_data\<close> (lines 43 to 61). Its argument is what \<^verbatim>\<open>img._getexif()\<close> does: it
  raises, or it returns a value. \<open>exif_tag_name\<close> is \<^verbatim>\<open>TAGS.get(tag_id, str(tag_id))\<close>.
\<close>

fun exif_tag_name :: "runtime \<Rightarrow> key \<Rightarrow> string" where
  "exif_tag_name R (KInt i) = (case TAGS R i of None \<Rightarrow> str_key (KInt i) | Some name \<Rightarrow> name)"
| "exif_tag_name R (KStr s) = str_key (KStr s)"

definition get_exif_data :: "runtime \<Rightarrow> exn + pyval \<Rightarrow> exn + (string \<times> pyval) list" where
  "get_exif_data R getexif =
     (if \<not> py_bool (case getexif of Inl e \<Rightarrow> PNone | Inr exif_raw \<Rightarrow> exif_raw) then Inr []
      else
        (case getexif of
           Inr (PDict kvs) \<Rightarrow> Inr (dict_of_items (map (\<lambda>(tag_id, v). (exif_tag_name R tag_id, v)) kvs))
         | _ \<Rightarrow> Inl AttributeError))"

section \<open>The report\<close>

text \<open>
  \<^verbatim>\<open>get_basic_info\<close> (lines 30 to 40), from the properties of the decoded image and the
  size of the file in bytes.
\<close>

record image =
  img_file_name :: string
  img_format :: "string option"
  img_mode :: string
  img_width :: int
  img_height :: int

record basic_info =
  file_name :: string
  format :: "string option"
  mode :: string
  resolution :: string
  width :: int
  height :: int
  file_size :: string

definition get_basic_info :: "image \<Rightarrow> int \<Rightarrow> exn + basic_info" where
  "get_basic_info img getsize =
     and_then (format_size getsize) (\<lambda>fs.
       Inr \<lparr>file_name = img_file_name img, format = img_format img, mode = img_mode img,
            resolution = str_int (img_width img) @ '' x '' @ str_int (img_height img) @ '' px'',
            width = img_width img, height = img_height img, file_size = fs\<rparr>)"

text \<open>
  The body of the loop over the tags in \<^verbatim>\<open>analyze\<close> (lines 290 to 330), in the steps of the
  source: the bytes decoded (lines 293 to 297), a list or tuple sanitized (lines 300 to
  304), any other value that is not simple turned into text (lines 307 to 311), and the
  text cut at 200 characters (lines 313 to 315).
\<close>

record exif_entry =
  tag :: string
  val :: string
  is_sensitive :: bool

definition SENSITIVE_TAGS :: "string list" where
  "SENSITIVE_TAGS =
     [''GPSInfo'', ''GPSLatitude'', ''GPSLongitude'', ''GPSLatitudeRef'', ''GPSLongitudeRef'',
      ''DateTime'', ''DateTimeOriginal'', ''DateTimeDigitized'', ''Model'', ''Make'',
      ''OwnerName'', ''Software'']"

definition display_sequence :: "runtime \<Rightarrow> pyval \<Rightarrow> exn + pyval" where
  "display_sequence R v =
     (if seq_items v \<noteq> None
      then (case sanitize_for_json R v of
              Inr w \<Rightarrow> Inr w
            | Inl e \<Rightarrow> and_then (py_str R v) (\<lambda>s. Inr (PStr s)))
      else Inr v)"

fun is_simple :: "pyval \<Rightarrow> bool" where
  "is_simple (PStr s) = True"
| "is_simple (PInt n) = True"
| "is_simple (PFloat f) = True"
| "is_simple (PBool b) = True"
| "is_simple PNone = True"
| "is_simple v = False"

definition display_simple :: "runtime \<Rightarrow> pyval \<Rightarrow> pyval" where
  "display_simple R v =
     (if \<not> is_simple v
      then (case py_str R v of Inr s \<Rightarrow> PStr s | Inl e \<Rightarrow> PStr ''<unserializable>'')
      else v)"

definition truncate_value :: "string \<Rightarrow> string" where
  "truncate_value value_str =
     (if length value_str > 200 then take 200 value_str @ ''... (truncated)'' else value_str)"

definition value_str_of :: "runtime \<Rightarrow> pyval \<Rightarrow> exn + string" where
  "value_str_of R v =
     and_then (display_sequence R (decode_if_bytes R v)) (\<lambda>display_value.
       py_str R (display_simple R display_value))"

definition exif_entry_of :: "runtime \<Rightarrow> string \<times> pyval \<Rightarrow> exn + exif_entry" where
  "exif_entry_of R item =
     and_then (value_str_of R (snd item)) (\<lambda>value_str.
       Inr \<lparr>tag = fst item, val = truncate_value value_str,
            is_sensitive = (fst item \<in> set SENSITIVE_TAGS)\<rparr>)"

text \<open>
  \<^verbatim>\<open>analyze\<close> from the opening of the saved image on (lines 263 to 351): the upload has
  passed the three checks of lines 239 to 256. \<open>analyze_body\<close> is the body of the
  \<^verbatim>\<open>try\<close>, and \<open>analyze\<close> answers with the report or, on any exception, with the error of
  line 351 and the status 500. In the records, \<open>val\<close> is the field \<^verbatim>\<open>value\<close> of an entry,
  \<open>basic\<close> the field \<^verbatim>\<open>basic_info\<close> and \<open>flags\<close> the field \<^verbatim>\<open>privacy_flags\<close> of the report.
\<close>

record privacy_flags =
  has_gps :: bool
  has_datetime :: bool
  has_camera_model :: bool

record report =
  success :: bool
  basic :: basic_info
  exif :: "exif_entry list"
  gps :: "gps_report option"
  flags :: privacy_flags
  message :: string

datatype response = Ok200 report | Error500 exn

definition no_exif_report :: "basic_info \<Rightarrow> report" where
  "no_exif_report b =
     \<lparr>success = True, basic = b, exif = [], gps = None,
      flags = \<lparr>has_gps = False, has_datetime = False, has_camera_model = False\<rparr>,
      message = ''No EXIF metadata found in this image.''\<rparr>"

definition analyze_body :: "runtime \<Rightarrow> image \<Rightarrow> int \<Rightarrow> exn + pyval \<Rightarrow> exn + report" where
  "analyze_body R img getsize getexif =
     and_then (get_basic_info img getsize) (\<lambda>b.
     and_then (get_exif_data R getexif) (\<lambda>exif_data.
       if exif_data = [] then Inr (no_exif_report b)
       else
         and_then (get_gps_info R exif_data) (\<lambda>g.
         and_then (collect (map (exif_entry_of R) exif_data)) (\<lambda>exif_list.
           Inr \<lparr>success = True, basic = b, exif = exif_list, gps = g,
                flags = \<lparr>has_gps =
                           (case g of None \<Rightarrow> False
                            | Some r \<Rightarrow> latitude r \<noteq> None \<and> longitude r \<noteq> None),
                         has_datetime =
                           list_ex (\<lambda>item. fst item \<in> set [''DateTime'', ''DateTimeOriginal'',
                                                             ''DateTimeDigitized'']) exif_data,
                         has_camera_model =
                           list_ex (\<lambda>item. fst item \<in> set [''Model'', ''Make'']) exif_data\<rparr>,
                message = ''Metadata analyzed successfully.''\<rparr>))))"

definition analyze :: "runtime \<Rightarrow> image \<Rightarrow> int \<Rightarrow> exn + pyval \<Rightarrow> response" where
  "analyze R img getsize getexif =
     (case analyze_body R img getsize getexif of Inl e \<Rightarrow> Error500 e | Inr r \<Rightarrow> Ok200 r)"

section \<open>A runtime for the examples\<close>

text \<open>
  The examples below run on a small runtime: ASCII bytes decode to their characters and
  the other bytes are dropped, no text is a number, and the tables hold the tags of the
  scenarios of the specification, under their numbers in \<^verbatim>\<open>PIL.ExifTags\<close>. Its
  \<^verbatim>\<open>str.upper\<close> is that of Python on the texts of the examples, which are made of ASCII
  characters and the sharp s (U+00DF): a lower-case ASCII letter becomes its capital, the
  sharp s becomes \<^verbatim>\<open>SS\<close>, and the other ASCII characters are unchanged.
\<close>

definition example_upper_char :: "char \<Rightarrow> string" where
  "example_upper_char c =
     (case map_of (zip ''abcdefghijklmnopqrstuvwxyz'' ''ABCDEFGHIJKLMNOPQRSTUVWXYZ'') c of
        None \<Rightarrow> (if c = CHR 0xDF then ''SS'' else [c])
      | Some u \<Rightarrow> [u])"

definition example_upper :: "string \<Rightarrow> string" where
  "example_upper s = concat (map example_upper_char s)"

definition ascii_chars :: "byte list \<Rightarrow> string" where
  "ascii_chars bs = map (\<lambda>b. char_of (unat b)) (filter (\<lambda>b. unat b < 128) bs)"

definition example_runtime :: runtime where
  "example_runtime =
     \<lparr>decode_ignore = (\<lambda>bs. Inr (ascii_chars bs)),
      bytes_repr = (\<lambda>bs. ''b'' @ [CHR 0x27] @ ascii_chars bs @ [CHR 0x27]),
      float_repr = format_2f,
      container_repr = (\<lambda>v. Inr ''[...]''),
      float_of_str = (\<lambda>s. None),
      float_of_bytes = (\<lambda>bs. None),
      str_upper = example_upper,
      TAGS = map_of [(271, ''Make''), (272, ''Model''), (306, ''DateTime''),
                     (34853, ''GPSInfo''), (36867, ''DateTimeOriginal'')],
      GPSTAGS = map_of [(1, ''GPSLatitudeRef''), (2, ''GPSLatitude''),
                        (3, ''GPSLongitudeRef''), (4, ''GPSLongitude'')]\<rparr>"

text \<open>
  The image and the tags of the scenarios: the full scenario of the specification (a
  date, a camera model and a GPS block north of the equator and west of Greenwich), and a
  GPS block whose latitude is a tuple of one element.
\<close>

definition example_image :: image where
  "example_image =
     \<lparr>img_file_name = ''photo.jpg'', img_format = Some ''JPEG'', img_mode = ''RGB'',
      img_width = 640, img_height = 480\<rparr>"

definition full_scenario :: pyval where
  "full_scenario =
     PDict [(KInt 36867, PStr ''2020:01:01 12:00:00''),
            (KInt 272, PStr ''Camera X''),
            (KInt 34853, PDict [(KInt 2, PTuple [PInt 10, PInt 30, PInt 0]),
                                (KInt 1, PStr ''N''),
                                (KInt 4, PTuple [PInt 20, PInt 15, PInt 0]),
                                (KInt 3, PStr ''W'')])]"

definition malformed_gps_scenario :: pyval where
  "malformed_gps_scenario = PDict [(KInt 34853, PDict [(KInt 2, PTuple [PInt 10])])]"

section \<open>Evaluating floats and decimal text\<close>

text \<open>The floor of a quotient of numerals, and the equations that compute on numerals.\<close>

lemma floor_rat_numeral_div:
  "\<lfloor>numeral a / numeral b :: rat\<rfloor> = numeral a div numeral b"
  by (metis floor_divide_of_int_eq of_int_numeral)

lemma floor_rat_one_div:
  "\<lfloor>1 / numeral b :: rat\<rfloor> = 1 div numeral b"
  by (metis floor_divide_of_int_eq of_int_1 of_int_numeral)

lemma floor_rat_minus_numeral_div:
  "\<lfloor>- (numeral a / numeral b) :: rat\<rfloor> = - numeral a div numeral b"
  by (metis divide_minus_left floor_divide_of_int_eq of_int_neg_numeral of_int_numeral)

lemma floor_rat_minus_one_div:
  "\<lfloor>- (1 / numeral b) :: rat\<rfloor> = - 1 div numeral b"
  by (metis (mono_tags, opaque_lifting) div_minus_right minus_divide_right
    floor_divide_of_int_eq of_int_neg_numeral of_int_1)

lemmas float_eval = ieee_round_def floor_log2_def log2_estimate_def quantum_exponent_def
  significand_def pow2_def round_half_even_def
  bit_length.simps float_of_int_def float_div_def float_is_zero_def float_is_inf_def
  signed_zero_def signed_inf_def py_truediv_def
  floor_rat_numeral_div floor_rat_one_div floor_rat_minus_numeral_div floor_rat_minus_one_div

lemmas text_eval = fixed2_def hundredths_def str_nat.simps digit_char_def str_int_def

section \<open>Properties of the file sizes\<close>

lemma ladder_0: "ladder x 0 = x"
  by (simp add: ladder_def)

lemma ladder_Suc: "ladder x (Suc k) = ladder (float_div x (Fin 1024)) k"
  by (simp only: ladder_def funpow_Suc_right o_apply)

lemma format_size_loop_ladder:
  assumes "k \<le> length us"
    and "\<forall>j<k. \<not> float_lt (ladder x j) (Fin 1024)"
    and "k < length us \<longrightarrow> float_lt (ladder x k) (Fin 1024)"
  shows "format_size_loop us x = format_2f (ladder x k) @ '' '' @ (us @ [''PB'']) ! k"
  using assms
proof (induction us arbitrary: x k)
  case Nil
  then show ?case by (simp add: ladder_0)
next
  case (Cons u us)
  show ?case
  proof (cases k)
    case 0
    with Cons.prems show ?thesis by (simp add: ladder_0)
  next
    case (Suc k')
    from Cons.prems(2) Suc have nlt: "\<not> float_lt x (Fin 1024)"
      using ladder_0 [of x] by (metis zero_less_Suc)
    have a: "k' \<le> length us" using Cons.prems(1) Suc by simp
    have b: "\<forall>j<k'. \<not> float_lt (ladder (float_div x (Fin 1024)) j) (Fin 1024)"
      using Cons.prems(2) Suc by (auto simp: ladder_Suc [symmetric])
    have c: "k' < length us \<longrightarrow> float_lt (ladder (float_div x (Fin 1024)) k') (Fin 1024)"
      using Cons.prems(3) Suc by (simp add: ladder_Suc)
    from Cons.IH [OF a b c] nlt Suc show ?thesis
      by (simp add: ladder_Suc)
  qed
qed

subsection \<open>Exact floats\<close>

text \<open>
  The bit length brackets a positive number between two powers of 2, so that an integer
  below \<open>2 ^ 53\<close>, and its quotient by a power of 2 that it reaches, is a float.
\<close>

lemma bit_length_pos: "0 < n \<Longrightarrow> 0 < bit_length n"
  by (subst bit_length.simps) simp

lemma bit_length_bounds:
  "0 < n \<Longrightarrow> 2 ^ (bit_length n - 1) \<le> n \<and> n < 2 ^ bit_length n"
proof (induction n rule: bit_length.induct)
  case (1 n)
  show ?case
  proof (cases "n div 2 = 0")
    case True
    with "1.prems" have "n = 1" by (simp add: div_eq_0_iff) 
    then show ?thesis by (simp add: bit_length.simps)
  next
    case False
    then have pos: "0 < n div 2" by simp
    from "1.IH" [OF _ pos] "1.prems"
    have ih: "2 ^ (bit_length (n div 2) - 1) \<le> n div 2" "n div 2 < 2 ^ bit_length (n div 2)"
      by auto
    have bl: "bit_length n = Suc (bit_length (n div 2))"
      using "1.prems" by (subst bit_length.simps) simp
    from bit_length_pos [OF pos] obtain b where b: "bit_length (n div 2) = Suc b"
      by (cases "bit_length (n div 2)") auto
    from ih b have "2 ^ b \<le> n div 2" "n div 2 < 2 * 2 ^ b" by auto
    then have "2 * 2 ^ b \<le> n" "n < 2 * (2 * 2 ^ b)" by auto
    with bl b show ?thesis by simp
  qed
qed

lemma bit_length_div2: "0 < n \<Longrightarrow> bit_length (n div 2) = bit_length n - 1"
  by (subst (2) bit_length.simps) simp

lemma bit_length_div_pow2: "2 ^ k \<le> n \<Longrightarrow> bit_length (n div 2 ^ k) = bit_length n - k"
proof (induction k arbitrary: n)
  case 0
  then show ?case by simp
next
  case (Suc k)
  then have "2 ^ k \<le> n div 2" by auto
  from Suc.IH [OF this] have "bit_length (n div 2 div 2 ^ k) = bit_length (n div 2) - k" .
  moreover have "n div 2 div 2 ^ k = n div 2 ^ Suc k"
    by (simp add: div_mult2_eq)
  moreover from Suc.prems have "0 < n"
    by (metis gr0I not_less zero_less_numeral zero_less_power less_le_trans not_le)
  ultimately show ?case by (simp add: bit_length_div2)
qed

lemma bit_length_le: "0 < n \<Longrightarrow> n < 2 ^ b \<Longrightarrow> bit_length n \<le> b"
proof -
  assume n: "0 < n" "n < 2 ^ b"
  from bit_length_bounds [OF n(1)] n(2) have "(2::nat) ^ (bit_length n - 1) < 2 ^ b"
    by linarith
  then have "bit_length n - 1 < b"
    using power_less_imp_less_exp [of 2 "bit_length n - 1" b] by simp
  then show ?thesis by simp
qed

lemma round_half_even_of_int: "round_half_even (of_int z) = z"
  by (simp add: round_half_even_def)

text \<open>A float of at most 53 significant bits that is at least 1 rounds to itself.\<close>

lemma ieee_round_exact:
  fixes n :: nat
  assumes "n < 2 ^ 53" and "2 ^ k \<le> n"
  shows "ieee_round (of_nat n / 2 ^ k) = Fin (of_nat n / 2 ^ k)"
proof -
  let ?x = "of_nat n / 2 ^ k :: rat"
  let ?B = "bit_length n"
  from assms(2) have npos: "0 < n"
    by (metis gr0I not_less zero_less_numeral zero_less_power less_le_trans not_le)
  have qpos: "0 < n div 2 ^ k"
    using assms(2) by (simp add: div_greater_zero_iff)
  have x1: "1 \<le> ?x"
    using assms(2) by (simp add: le_divide_eq)
  have fl: "\<lfloor>?x\<rfloor> = int (n div 2 ^ k)"
    by (metis floor_divide_of_nat_eq of_nat_numeral of_nat_power)
  have blq: "bit_length (n div 2 ^ k) = ?B - k"
    using assms(2) by (rule bit_length_div_pow2)
  have Bk: "k < ?B"
    using bit_length_pos [OF qpos] blq by simp
  have B53: "?B \<le> 53"
    using npos assms(1) by (rule bit_length_le)
  have est: "log2_estimate ?x = int ?B - int k - 1"
    using x1 fl blq Bk by (simp add: log2_estimate_def)
  have "(of_nat n :: rat) < 2 ^ ?B"
    using bit_length_bounds [OF npos] by (metis of_nat_less_iff of_nat_numeral of_nat_power)
  also have "(2::rat) ^ ?B = 2 ^ (?B - k) * 2 ^ k"
    using Bk by (simp add: power_add [symmetric])
  finally have xlt: "?x < 2 ^ (?B - k)" by (simp add: divide_less_eq)
  have "nat (int ?B - int k) = ?B - k" by simp
  with xlt Bk have nle: "\<not> pow2 (int ?B - int k) \<le> ?x"
    by (simp add: pow2_def not_le)
  have fl2: "floor_log2 ?x = int ?B - int k - 1"
    using est nle by (simp add: floor_log2_def)
  have qe: "quantum_exponent ?x = int ?B - int k - 53"
    using fl2 B53 Bk by (simp add: quantum_exponent_def)
  have p2: "pow2 (int ?B - int k - 53) = 1 / 2 ^ (53 + k - ?B)"
  proof (cases "int ?B - int k - 53 = 0")
    case True
    then have "53 + k - ?B = 0" by linarith
    with True show ?thesis by (simp add: pow2_def)
  next
    case False
    with B53 have "\<not> 0 \<le> int ?B - int k - 53" by linarith
    moreover have "nat (- (int ?B - int k - 53)) = 53 + k - ?B" using B53 by linarith
    ultimately show ?thesis by (simp add: pow2_def)
  qed
  have pw: "(2::rat) ^ (53 + k - ?B) = 2 ^ (53 - ?B) * 2 ^ k"
    using B53 by (simp add: power_add [symmetric])
  have scaled: "?x / pow2 (int ?B - int k - 53) = of_int (int (n * 2 ^ (53 - ?B)))"
    by (simp add: p2 pw)
  have sig: "significand ?x = int (n * 2 ^ (53 - ?B))"
    unfolding significand_def qe scaled by (rule round_half_even_of_int)
  have recon: "of_int (significand ?x) * pow2 (quantum_exponent ?x) = ?x"
    unfolding sig qe p2 pw by simp
  have "?x \<le> of_nat n"
    by (simp add: divide_le_eq mult_le_cancel_left1)
  also have "(of_nat n :: rat) < 2 ^ 53"
    using assms(1) by (metis of_nat_less_iff of_nat_numeral of_nat_power)
  also have "(2::rat) ^ 53 \<le> 2 ^ 1024" by simp
  finally have lt1024: "\<not> 2 ^ 1024 \<le> ?x" by simp
  have signz: "significand ?x \<noteq> 0" using sig npos by simp
  have xpos: "0 < ?x" using x1 by linarith
  have xabs: "\<bar>?x\<bar> = ?x" using xpos by simp
  have xnz: "?x \<noteq> 0" using npos by simp
  have sg: "sgn ?x = 1" using xpos by (simp only: sgn_pos)
  show ?thesis
    unfolding ieee_round_def xabs recon sg
    using xnz lt1024 signz by (simp add: significand_def [symmetric])
qed

lemma float_of_int_exact:
  assumes "0 \<le> n" and "n < 2 ^ 53"
  shows "float_of_int n = Inr (Fin (of_int n))"
proof (cases "n = 0")
  case True
  then show ?thesis by (simp add: float_of_int_def ieee_round_def)
next
  case False
  with assms have "nat n < 2 ^ 53" "2 ^ 0 \<le> nat n" by (auto simp: nat_less_iff)
  from ieee_round_exact [OF this] assms(1) show ?thesis
    by (simp add: float_of_int_def)
qed

lemma float_div_1024_exact:
  fixes n :: nat
  assumes "n < 2 ^ 53" and "1024 ^ Suc k \<le> n"
  shows "float_div (Fin (of_nat n / 1024 ^ k)) (Fin 1024) = Fin (of_nat n / 1024 ^ Suc k)"
proof -
  have p: "(1024::nat) ^ Suc k = 2 ^ (10 * Suc k)" "(1024::rat) ^ Suc k = 2 ^ (10 * Suc k)"
    by (simp_all only: power_mult) simp_all
  from assms(2) have npos: "0 < n"
    by (metis gr0I not_less zero_less_numeral zero_less_power less_le_trans not_le)
  from assms(2) have "2 ^ (10 * Suc k) \<le> n" by (simp only: p)
  from ieee_round_exact [OF assms(1) this]
  have "ieee_round (of_nat n / 1024 ^ Suc k) = Fin (of_nat n / 1024 ^ Suc k)"
    by (simp only: p)
  moreover have "of_nat n / 1024 ^ k / (1024::rat) = of_nat n / 1024 ^ Suc k" by simp
  ultimately show ?thesis
    using npos by (simp add: float_div_def float_is_zero_def float_is_inf_def mult.commute)
qed

lemma ladder_exact:
  fixes n :: nat
  assumes "n < 2 ^ 53" and "1024 ^ k \<le> n"
  shows "ladder (Fin (of_nat n)) k = Fin (of_nat n / 1024 ^ k)"
  using assms(2)
proof (induction k)
  case 0
  then show ?case by (simp add: ladder_def)
next
  case (Suc k)
  have "(1024::nat) ^ k \<le> 1024 ^ Suc k" by simp
  with Suc.prems have "1024 ^ k \<le> n" by linarith
  from Suc.IH [OF this] float_div_1024_exact [OF assms(1) Suc.prems]
  show ?case by (simp add: ladder_def)
qed

lemma float_lt_1024:
  fixes n :: nat
  shows "float_lt (Fin (of_nat n / 1024 ^ k)) (Fin 1024) \<longleftrightarrow> n < 1024 ^ Suc k"
proof -
  have "(of_nat n / 1024 ^ k < (1024::rat)) \<longleftrightarrow> (of_nat n :: rat) < of_nat (1024 ^ Suc k)"
    by (simp add: divide_less_eq)
  then show ?thesis by (simp only: float_lt.simps of_nat_less_iff)
qed

text \<open>
  Below \<open>2 ^ 53\<close> bytes nothing is rounded before the text is made: the size is the exact
  quotient of the byte count by the power of 1024 of the unit.
\<close>

lemma format_size_exact:
  fixes n :: nat
  assumes "n < 2 ^ 53" and "k \<le> 5" and "k = 0 \<or> 1024 ^ k \<le> n"
    and "k < 5 \<longrightarrow> n < 1024 ^ Suc k"
  shows "format_size (int n) = Inr (format_2f (Fin (of_nat n / 1024 ^ k)) @ '' '' @ unit_names ! k)"
proof -
  have f: "float_of_int (int n) = Inr (Fin (of_nat n))"
    using float_of_int_exact [of "int n"] assms(1) by simp
  have lad: "ladder (Fin (of_nat n)) j = Fin (of_nat n / 1024 ^ j)" if "j \<le> k" for j
  proof (cases "j = 0")
    case True
    then show ?thesis by (simp add: ladder_def)
  next
    case False
    with that assms(3) have pw: "1024 ^ k \<le> n" by auto
    from that have "(1024::nat) ^ j \<le> 1024 ^ k" by (simp add: power_increasing)
    with pw have "1024 ^ j \<le> n" by linarith
    with assms(1) show ?thesis by (rule ladder_exact)
  qed
  have before: "\<forall>j<k. \<not> float_lt (ladder (Fin (of_nat n)) j) (Fin 1024)"
  proof (intro allI impI)
    fix j assume j: "j < k"
    with assms(3) have pw: "1024 ^ k \<le> n" by auto
    from j have "(1024::nat) ^ Suc j \<le> 1024 ^ k" by (intro power_increasing) simp_all
    with pw have "\<not> n < 1024 ^ Suc j" by linarith
    moreover from j have "ladder (Fin (of_nat n)) j = Fin (of_nat n / 1024 ^ j)"
      by (intro lad) simp
    ultimately show "\<not> float_lt (ladder (Fin (of_nat n)) j) (Fin 1024)"
      by (simp only: float_lt_1024) simp
  qed
  have stop: "k < 5 \<longrightarrow> float_lt (ladder (Fin (of_nat n)) k) (Fin 1024)"
    using assms(4) lad [of k] by (simp only: float_lt_1024)
  from assms(2) have len: "k \<le> length units" by (simp add: units_def)
  from stop have stop': "k < length units \<longrightarrow> float_lt (ladder (Fin (of_nat n)) k) (Fin 1024)"
    by (simp add: units_def)
  from format_size_loop_ladder [OF len before stop'] f lad [of k]
  show ?thesis
    by (simp add: format_size_def unit_names_def)
qed

text \<open>
  Claim C5. For a byte count \<open>n\<close> that \<^verbatim>\<open>float\<close> converts to \<open>x\<close>, let \<open>k\<close> be the first of
  the five steps B, KB, MB, GB, TB at which \<open>x\<close>, divided \<open>k\<close> times by 1024, is below 1024,
  or 5 (PB) when there is none: \<open>format_size n\<close> is that quotient with two decimals, a
  space and the \<open>k\<close>-th unit. For a byte count below \<open>2 ^ 53\<close> no division rounds, and the
  quotient is \<open>n / 1024 ^ k\<close> for the \<open>k\<close> with \<open>1024 ^ k \<le> n < 1024 ^ (k + 1)\<close> (or 5).
  And \<open>format_size\<close> gives \<^verbatim>\<open>0.00 B\<close>, \<^verbatim>\<open>1023.00 B\<close>, \<^verbatim>\<open>1.00 KB\<close>, \<^verbatim>\<open>1.50 KB\<close> and
  \<^verbatim>\<open>1.00 TB\<close> for 0, 1023, 1024, 1536 and \<open>1024 ^ 4\<close>.
\<close>

theorem format_size_ladder:
  "(\<forall>n x k. float_of_int n = Inr x \<and> k \<le> 5
      \<and> (\<forall>j<k. \<not> float_lt (ladder x j) (Fin 1024))
      \<and> (k < 5 \<longrightarrow> float_lt (ladder x k) (Fin 1024))
      \<longrightarrow> format_size n = Inr (format_2f (ladder x k) @ '' '' @ unit_names ! k))
   \<and> (\<forall>n k. 0 \<le> n \<and> n < 2 ^ 53 \<and> k \<le> 5 \<and> (k = 0 \<or> 1024 ^ k \<le> n)
      \<and> (k < 5 \<longrightarrow> n < 1024 ^ Suc k)
      \<longrightarrow> format_size n
          = Inr (format_2f (Fin (of_int n / 1024 ^ k)) @ '' '' @ unit_names ! k))
   \<and> format_size 0 = Inr ''0.00 B''
   \<and> format_size 1023 = Inr ''1023.00 B''
   \<and> format_size 1024 = Inr ''1.00 KB''
   \<and> format_size 1536 = Inr ''1.50 KB''
   \<and> format_size (1024 ^ 4) = Inr ''1.00 TB''"
proof -
  have gen: "format_size n = Inr (format_2f (ladder x k) @ '' '' @ unit_names ! k)"
    if "float_of_int n = Inr x" "k \<le> 5"
      "\<forall>j<k. \<not> float_lt (ladder x j) (Fin 1024)"
      "k < 5 \<longrightarrow> float_lt (ladder x k) (Fin 1024)" for n x k
    using that format_size_loop_ladder [of k units x]
    by (simp add: format_size_def unit_names_def units_def)
  have exact: "format_size n = Inr (format_2f (Fin (of_int n / 1024 ^ k)) @ '' '' @ unit_names ! k)"
    if "0 \<le> n" "n < 2 ^ 53" "k \<le> 5" "k = 0 \<or> 1024 ^ k \<le> n" "k < 5 \<longrightarrow> n < 1024 ^ Suc k"
    for n :: int and k
  proof -
    from that(1,2) have a: "nat n < 2 ^ 53" by (simp add: nat_less_iff)
    from that(1,4) have b: "k = 0 \<or> 1024 ^ k \<le> nat n" by (auto simp: le_nat_iff)
    from that(1,5) have c: "k < 5 \<longrightarrow> nat n < 1024 ^ Suc k" by (auto simp: nat_less_iff)
    from format_size_exact [OF a that(3) b c] that(1) show ?thesis by simp
  qed
  have e0: "format_size 0 = Inr ''0.00 B''"
    by (simp add: format_size_def units_def float_eval text_eval)
  have e1: "format_size 1023 = Inr ''1023.00 B''"
    by (simp add: format_size_def units_def float_eval text_eval)
  have e2: "format_size 1024 = Inr ''1.00 KB''"
    by (simp add: format_size_def units_def float_eval text_eval)
  have e3: "format_size 1536 = Inr ''1.50 KB''"
    by (simp add: format_size_def units_def float_eval text_eval)
  have e4: "format_size (1024 ^ 4) = Inr ''1.00 TB''"
    by (simp add: format_size_def units_def float_eval text_eval)
  show ?thesis
    apply (intro conjI allI impI)
    subgoal for n x k using gen [of n x k] by blast
    subgoal for n k by (elim conjE) (rule exact, assumption+)
    subgoal by (rule e0)
    subgoal by (rule e1)
    subgoal by (rule e2)
    subgoal by (rule e3)
    subgoal by (rule e4)
    done
qed

text \<open>The instance of the general statement at 1536 bytes, with its hypotheses.\<close>

theorem format_size_ladder_witness:
  "float_of_int 1536 = Inr (Fin 1536)
   \<and> \<not> float_lt (ladder (Fin 1536) 0) (Fin 1024)
   \<and> float_lt (ladder (Fin 1536) 1) (Fin 1024)
   \<and> format_size 1536 = Inr (format_2f (ladder (Fin 1536) 1) @ '' '' @ unit_names ! 1)
   \<and> format_2f (ladder (Fin 1536) 1) @ '' '' @ unit_names ! 1 = ''1.50 KB''
   \<and> (0::int) \<le> 1536 \<and> (1536::int) < 2 ^ 53 \<and> (1024::int) ^ 1 \<le> 1536
   \<and> (1536::int) < 1024 ^ Suc 1
   \<and> format_size 1536 = Inr (format_2f (Fin (of_int 1536 / 1024 ^ 1)) @ '' '' @ unit_names ! 1)"
proof -
  have a: "float_of_int 1536 = Inr (Fin 1536)"
    by (simp add: float_eval)
  have l1: "ladder (Fin 1536) 1 = Fin (3 / 2)"
    by (simp add: ladder_def float_eval)
  have b: "\<not> float_lt (ladder (Fin 1536) 0) (Fin 1024)"
    by (simp add: ladder_def)
  have c: "float_lt (ladder (Fin 1536) 1) (Fin 1024)"
    using l1 by simp
  have d: "format_2f (ladder (Fin 1536) 1) @ '' '' @ unit_names ! 1 = ''1.50 KB''"
    using l1 by (simp add: unit_names_def units_def text_eval round_half_even_def
        floor_rat_numeral_div)
  have e: "format_size 1536 = Inr (format_2f (ladder (Fin 1536) 1) @ '' '' @ unit_names ! 1)"
    using format_size_ladder [THEN conjunct1, rule_format, of 1536 "Fin 1536" 1] a b c
    by simp
  have f: "format_size 1536 = Inr (format_2f (Fin (of_int 1536 / 1024 ^ 1)) @ '' '' @ unit_names ! 1)"
    using format_size_ladder [THEN conjunct2, THEN conjunct1, rule_format, of 1536 1]
    by simp
  from a b c d e f show ?thesis by simp
qed

section \<open>Properties of raising computations and dictionaries\<close>

lemma and_then_Inr [simp]: "and_then (Inr v) f = f v"
  by (simp add: and_then_def)

lemma and_then_Inl [simp]: "and_then (Inl e) f = Inl e"
  by (simp add: and_then_def)

lemma and_then_eq_Inr:
  "and_then m f = Inr w \<longleftrightarrow> (\<exists>v. m = Inr v \<and> f v = Inr w)"
  by (cases m) simp_all

lemma collect_eq_Inr: "collect ms = Inr vs \<longleftrightarrow> ms = map Inr vs"
proof (induction ms arbitrary: vs rule: collect.induct)
  case 1
  then show ?case by auto
next
  case (2 e rest)
  then show ?case by auto
next
  case (3 v rest)
  show ?case
  proof (cases vs)
    case Nil
    then show ?thesis by (simp split: sum.splits)
  next
    case (Cons a vs')
    with "3.IH" [of vs'] show ?thesis by (auto split: sum.splits)
  qed
qed

lemma collect_map_total:
  assumes "\<And>x. x \<in> set xs \<Longrightarrow> \<exists>y. f x = Inr y \<and> P y"
  shows "\<exists>ys. collect (map f xs) = Inr ys \<and> list_all P ys"
  using assms
proof (induction xs)
  case Nil
  then show ?case by simp
next
  case (Cons x xs)
  then obtain y where y: "f x = Inr y" "P y" by auto
  from Cons obtain ys where ys: "collect (map f xs) = Inr ys" "list_all P ys" by auto
  from y ys show ?case by simp
qed

lemma dict_set_keys: "fst ` set (dict_set d k v) = insert k (fst ` set d)"
  by (induction d k v rule: dict_set.induct) auto

lemma dict_set_subset: "set (dict_set d k v) \<subseteq> insert (k, v) (set d)"
  by (induction d k v rule: dict_set.induct) auto

lemma dict_set_distinct: "distinct (map fst d) \<Longrightarrow> distinct (map fst (dict_set d k v))"
  by (induction d k v rule: dict_set.induct) (auto simp: dict_set_keys)

lemma dict_set_new: "k \<notin> set (map fst d) \<Longrightarrow> dict_set d k v = d @ [(k, v)]"
  by (induction d k v rule: dict_set.induct) auto

lemma foldl_dict_set_subset:
  "set (foldl (\<lambda>d (k, v). dict_set d k v) d0 items) \<subseteq> set d0 \<union> set items"
proof (induction items arbitrary: d0)
  case Nil
  then show ?case by simp
next
  case (Cons a items)
  obtain k v where a: "a = (k, v)" by (cases a)
  show ?case
    using Cons.IH [of "dict_set d0 k v"] dict_set_subset [of d0 k v] a by auto
qed

lemma foldl_dict_set_distinct:
  "distinct (map fst d0) \<Longrightarrow> distinct (map fst (foldl (\<lambda>d (k, v). dict_set d k v) d0 items))"
proof (induction items arbitrary: d0)
  case Nil
  then show ?case by simp
next
  case (Cons a items)
  obtain k v where a: "a = (k, v)" by (cases a)
  show ?case
    using Cons.IH [of "dict_set d0 k v"] dict_set_distinct [OF Cons.prems, of k v] a by simp
qed

lemma foldl_dict_set_fresh:
  "distinct (map fst (d0 @ items)) \<Longrightarrow> foldl (\<lambda>d (k, v). dict_set d k v) d0 items = d0 @ items"
proof (induction items arbitrary: d0)
  case Nil
  then show ?case by simp
next
  case (Cons a items)
  obtain k v where a: "a = (k, v)" by (cases a)
  from Cons.prems a have fresh: "k \<notin> set (map fst d0)" by auto
  from Cons.prems a have "distinct (map fst ((d0 @ [(k, v)]) @ items))" by auto
  from Cons.IH [OF this] show ?case
    using a dict_set_new [OF fresh] by simp
qed

lemma dict_of_items_subset: "set (dict_of_items items) \<subseteq> set items"
  using foldl_dict_set_subset [of "[]" items] by (simp add: dict_of_items_def)

lemma dict_of_items_distinct: "distinct (map fst (dict_of_items items))"
  using foldl_dict_set_distinct [of "[]" items] by (simp add: dict_of_items_def)

lemma dict_of_items_id: "distinct (map fst items) \<Longrightarrow> dict_of_items items = items"
  using foldl_dict_set_fresh [of "[]" items] by (simp add: dict_of_items_def)

section \<open>Properties of the sanitizer\<close>

lemma float_or_int_safe: "float_or_int f = Inr v \<Longrightarrow> json_safe v"
  by (auto simp: float_or_int_def and_then_eq_Inr split: if_splits)

lemma sanitize_rational_safe: "sanitize_rational R obj = Some v \<Longrightarrow> json_safe v"
  by (auto simp: sanitize_rational_def and_then_eq_Inr split: if_splits sum.splits
      dest: float_or_int_safe)

lemma map_Inr_member:
  assumes "map f xs = map Inr ys" and "y \<in> set ys"
  shows "\<exists>x \<in> set xs. f x = Inr y"
proof -
  from assms(2) obtain i where i: "i < length ys" "ys ! i = y"
    by (auto simp: in_set_conv_nth)
  from assms(1) have len: "length xs = length ys"
    by (metis length_map)
  from assms(1) i len have "f (xs ! i) = Inr y"
    by (metis nth_map)
  with i len show ?thesis by (metis nth_mem)
qed

lemma sanitize_result_safe: "sanitize_for_json R v = Inr w \<Longrightarrow> json_safe w"
proof (induction R v arbitrary: w rule: sanitize_for_json.induct)
  case (7 R kvs)
  let ?f = "\<lambda>(k, v). and_then (sanitize_for_json R v) (\<lambda>w. Inr (KStr (str_key k), w))"
  from "7.prems" obtain items where items: "map ?f kvs = map Inr items"
    and w: "w = PDict (dict_of_items items)"
    by (auto simp: and_then_eq_Inr collect_eq_Inr)
  have "is_str_key (fst item) \<and> json_safe (snd item)" if "item \<in> set items" for item
  proof -
    from map_Inr_member [OF items that] obtain k v where kv: "(k, v) \<in> set kvs"
      and f: "?f (k, v) = Inr item" by auto
    from f obtain w' where "sanitize_for_json R v = Inr w'" "item = (KStr (str_key k), w')"
      by (auto simp: and_then_eq_Inr)
    with "7.IH" [OF kv refl] show ?thesis by simp
  qed
  then have "list_all (\<lambda>(k, v). is_str_key k \<and> json_safe v) (dict_of_items items)"
    using dict_of_items_subset [of items] by (auto simp: list_all_iff)
  with w show ?case by (simp add: dict_of_items_distinct)
next
  case (8 R xs)
  from "8.prems" obtain ys where ys: "map (sanitize_for_json R) xs = map Inr ys"
    and w: "w = PList ys"
    by (auto simp: and_then_eq_Inr collect_eq_Inr)
  have "json_safe y" if "y \<in> set ys" for y
    using map_Inr_member [OF ys that] "8.IH" by blast
  with w show ?case by (simp add: list_all_iff)
next
  case (9 R xs)
  from "9.prems" obtain ys where ys: "map (sanitize_for_json R) xs = map Inr ys"
    and w: "w = PList ys"
    by (auto simp: and_then_eq_Inr collect_eq_Inr)
  have "json_safe y" if "y \<in> set ys" for y
    using map_Inr_member [OF ys that] "9.IH" by blast
  with w show ?case by (simp add: list_all_iff)
next
  case (10 R fl tr st attrs)
  then show ?case
    by (auto simp: and_then_eq_Inr split: sum.splits option.splits
        dest: float_or_int_safe sanitize_rational_safe)
qed auto

lemma sanitize_json_safe_id: "json_safe w \<Longrightarrow> sanitize_for_json R w = Inr w"
proof (induction R w rule: sanitize_for_json.induct)
  case (7 R kvs)
  let ?f = "\<lambda>(k, v). and_then (sanitize_for_json R v) (\<lambda>w. Inr (KStr (str_key k), w))"
  have "?f x = Inr x" if "x \<in> set kvs" for x
  proof -
    obtain k v where x: "x = (k, v)" by (cases x)
    from "7.prems" that x have safe: "is_str_key k" "json_safe v"
      by (auto simp: list_all_iff)
    from "7.IH" [OF that x [symmetric] safe(2)] safe(1) x show ?thesis
      by (cases k) simp_all
  qed
  then have "map ?f kvs = map Inr kvs" by (simp cong: map_cong)
  then have "collect (map ?f kvs) = Inr kvs" by (simp add: collect_eq_Inr)
  moreover from "7.prems" have "dict_of_items kvs = kvs"
    by (simp add: dict_of_items_id)
  ultimately show ?case by simp
next
  case (8 R xs)
  then have "map (sanitize_for_json R) xs = map Inr xs"
    by (simp add: list_all_iff cong: map_cong)
  then have "collect (map (sanitize_for_json R) xs) = Inr xs" by (simp add: collect_eq_Inr)
  then show ?case by simp
qed simp_all

text \<open>
  Claim C1. For every raw tag value, whatever its kind and nesting, \<open>sanitize_for_json\<close>
  returns a value and raises nothing, and the value returned is one that JSON holds.
\<close>

theorem sanitize_for_json_total:
  "\<exists>w. sanitize_for_json R v = Inr w \<and> json_safe w"
proof -
  have returns: "\<exists>w. sanitize_for_json R v = Inr w"
  proof (induction R v rule: sanitize_for_json.induct)
    case (7 R kvs)
    let ?f = "\<lambda>(k, v). and_then (sanitize_for_json R v) (\<lambda>w. Inr (KStr (str_key k), w))"
    have "\<exists>y. ?f x = Inr y \<and> True" if "x \<in> set kvs" for x
    proof -
      obtain k v where x: "x = (k, v)" by (cases x)
      from "7.IH" [OF that x [symmetric]] obtain w where "sanitize_for_json R v = Inr w" ..
      with x show ?thesis by simp
    qed
    from collect_map_total [of kvs ?f "\<lambda>y. True", OF this]
    obtain items where "collect (map ?f kvs) = Inr items" by auto
    then show ?case by simp
  next
    case (8 R xs)
    then have "\<exists>y. sanitize_for_json R x = Inr y \<and> True" if "x \<in> set xs" for x
      using that by simp
    from collect_map_total [of xs "sanitize_for_json R" "\<lambda>y. True", OF this]
    obtain ys where "collect (map (sanitize_for_json R) xs) = Inr ys" by auto
    then show ?case by simp
  next
    case (9 R xs)
    then have "\<exists>y. sanitize_for_json R x = Inr y \<and> True" if "x \<in> set xs" for x
      using that by simp
    from collect_map_total [of xs "sanitize_for_json R" "\<lambda>y. True", OF this]
    obtain ys where "collect (map (sanitize_for_json R) xs) = Inr ys" by auto
    then show ?case by simp
  next
    case (10 R fl tr st attrs)
    show ?case
      by (simp split: sum.splits option.splits)
  qed simp_all
  then obtain w where w: "sanitize_for_json R v = Inr w" ..
  from w sanitize_result_safe [OF w] show ?thesis by blast
qed

text \<open>
  A dict of a tag number to a tuple that holds a rational whose \<^verbatim>\<open>float\<close> fails on a zero
  denominator, bytes, and a nested dict.
\<close>

theorem sanitize_for_json_total_witness:
  "\<exists>w. sanitize_for_json example_runtime
         (PDict [(KInt 2, PTuple [PObj (Inl ZeroDivisionError) True (Inr ''1/0'')
                                    [(''numerator'', PInt 1), (''denominator'', PInt 0)],
                                  PBytes [78, 255], PDict [(KInt 1, PNone)]])]) = Inr w
       \<and> json_safe w"
  by (rule sanitize_for_json_total)

text \<open>
  Claim C7. A value that \<open>sanitize_for_json\<close> has returned is returned unchanged when it
  is sanitized again.
\<close>

theorem sanitize_for_json_idempotent:
  assumes "sanitize_for_json R v = Inr w"
  shows "sanitize_for_json R w = Inr w"
proof -
  from assms have "json_safe w" by (rule sanitize_result_safe)
  then show ?thesis by (rule sanitize_json_safe_id)
qed

text \<open>A tuple of an int, a rational and a dict, sanitized once and then again.\<close>

theorem sanitize_for_json_idempotent_witness:
  "sanitize_for_json example_runtime
     (PTuple [PInt 10, PObj (Inr (Fin (1 / 2))) True (Inr ''1/2'') [], PDict [(KInt 1, PStr ''N'')]])
     = Inr (PList [PInt 10, PFloat (Fin (1 / 2)), PDict [(KStr ''1'', PStr ''N'')]])
   \<and> sanitize_for_json example_runtime
        (PList [PInt 10, PFloat (Fin (1 / 2)), PDict [(KStr ''1'', PStr ''N'')]])
     = Inr (PList [PInt 10, PFloat (Fin (1 / 2)), PDict [(KStr ''1'', PStr ''N'')]])"
proof -
  have a: "sanitize_for_json example_runtime
     (PTuple [PInt 10, PObj (Inr (Fin (1 / 2))) True (Inr ''1/2'') [], PDict [(KInt 1, PStr ''N'')]])
     = Inr (PList [PInt 10, PFloat (Fin (1 / 2)), PDict [(KStr ''1'', PStr ''N'')]])"
    by (simp add: float_or_int_def dict_of_items_def text_eval floor_rat_one_div)
  from a sanitize_for_json_idempotent [OF a] show ?thesis by simp
qed

text \<open>
  Claim C8, at an object that \<^verbatim>\<open>float\<close> refuses and whose attributes are the numerator 0
  and the denominator 5: the quotient is the float 0.0, which the collapse rule turns
  into the int 0, but \<open>sanitize_for_json\<close> returns the text of the object. With the
  numerator 10 it returns the int 2, and with the numerator 1 the float nearest to 1/5.
  The same reading of the numerator in \<open>to_float_rational\<close> makes the conversion fail.
\<close>

theorem sanitize_for_json_zero_numerator:
  "sanitize_for_json R (PObj (Inl TypeError) True (Inr ''0/5'')
       [(''numerator'', PInt 0), (''denominator'', PInt 5)]) = Inr (PStr ''0/5'')
   \<and> and_then (float_quotient R (PInt 0) (PInt 5)) float_or_int = Inr (PInt 0)
   \<and> sanitize_for_json R (PObj (Inl TypeError) True (Inr ''10/5'')
       [(''numerator'', PInt 10), (''denominator'', PInt 5)]) = Inr (PInt 2)
   \<and> sanitize_for_json R (PObj (Inl TypeError) True (Inr ''1/5'')
       [(''numerator'', PInt 1), (''denominator'', PInt 5)])
     = Inr (PFloat (Fin (3602879701896397 / 18014398509481984)))
   \<and> to_float_rational R (PObj (Inl TypeError) True (Inr ''0/5'')
       [(''numerator'', PInt 0), (''denominator'', PInt 5)]) = Inl ValueError"
proof -
  have a: "sanitize_for_json R (PObj (Inl TypeError) True (Inr ''0/5'')
       [(''numerator'', PInt 0), (''denominator'', PInt 5)]) = Inr (PStr ''0/5'')"
    by (simp add: sanitize_rational_def attr_or_def py_or_def)
  have b: "and_then (float_quotient R (PInt 0) (PInt 5)) float_or_int = Inr (PInt 0)"
    by (simp add: float_quotient_def float_or_int_def float_eval)
  have c: "sanitize_for_json R (PObj (Inl TypeError) True (Inr ''10/5'')
       [(''numerator'', PInt 10), (''denominator'', PInt 5)]) = Inr (PInt 2)"
    by (simp add: sanitize_rational_def attr_or_def py_or_def float_quotient_def
        float_or_int_def float_eval)
  have d: "sanitize_for_json R (PObj (Inl TypeError) True (Inr ''1/5'')
       [(''numerator'', PInt 1), (''denominator'', PInt 5)])
     = Inr (PFloat (Fin (3602879701896397 / 18014398509481984)))"
    by (simp add: sanitize_rational_def attr_or_def py_or_def float_quotient_def
        float_or_int_def float_eval)
  have e: "to_float_rational R (PObj (Inl TypeError) True (Inr ''0/5'')
       [(''numerator'', PInt 0), (''denominator'', PInt 5)]) = Inl ValueError"
    by (simp add: to_float_rational_def attr_or_def py_or_def)
  from a b c d e show ?thesis by simp
qed

section \<open>Properties of the GPS decoder\<close>

lemma py_truediv_nonzero: "\<not> float_is_zero b \<Longrightarrow> py_truediv a b = Inr (float_div a b)"
  by (simp add: py_truediv_def)

lemma convert_to_degrees_body_triple:
  assumes "seq_items v = Some [x, y, z]"
    and "to_float_rational R x = Inr d"
    and "to_float_rational R y = Inr m"
    and "to_float_rational R z = Inr s"
  shows "convert_to_degrees_body R v
    = Inr (float_add (float_add d (float_div m (Fin 60))) (float_div s (Fin 3600)))"
  using assms
  by (simp add: convert_to_degrees_body_def py_truediv_nonzero float_is_zero_def)









lemma signed_coordinate_text:
  assumes "map_of g (KStr name) = Some v" and "convert_to_degrees R v = Inr (Some c)"
  shows "signed_coordinate R g name (PStr r) letter
    = Inr (Some (if r \<noteq> [] \<and> startswith (str_upper R r) letter then float_neg c else c))"
  using assms by (simp add: signed_coordinate_def)

lemma signed_coordinate_no_ref:
  assumes "map_of g (KStr name) = Some v" and "convert_to_degrees R v = Inr (Some c)"
  shows "signed_coordinate R g name PNone letter = Inr (Some c)"
  using assms by (simp add: signed_coordinate_def)

lemma gps_report_of_latitude:
  assumes "gps_report_of R g = Inr rep"
  shows "signed_coordinate R g ''GPSLatitude''
           (decode_if_bytes R (dict_get g (KStr ''GPSLatitudeRef''))) ''S'' = Inr (latitude rep)"
  using assms by (auto simp: gps_report_of_def and_then_eq_Inr)

lemma gps_report_of_longitude:
  assumes "gps_report_of R g = Inr rep"
  shows "signed_coordinate R g ''GPSLongitude''
           (decode_if_bytes R (dict_get g (KStr ''GPSLongitudeRef''))) ''W'' = Inr (longitude rep)"
  using assms by (auto simp: gps_report_of_def and_then_eq_Inr)

lemma coordinate_sign:
  assumes "signed_coordinate R g name (decode_if_bytes R (dict_get g (KStr refname))) letter = Inr res"
    and "map_of g (KStr name) = Some v" and "convert_to_degrees R v = Inr (Some c)"
  shows "(map_of g (KStr refname) = None \<longrightarrow> res = Some c)
    \<and> (\<forall>r. map_of g (KStr refname) = Some (PStr r)
          \<longrightarrow> res = Some (if r \<noteq> [] \<and> startswith (str_upper R r) letter
                            then float_neg c else c))
    \<and> (\<forall>bs. map_of g (KStr refname) = Some (PBytes bs)
          \<longrightarrow> res = Some (if decode_bytes R bs \<noteq> []
                               \<and> startswith (str_upper R (decode_bytes R bs)) letter
                            then float_neg c else c))"
  using assms signed_coordinate_text [OF assms(2,3)] signed_coordinate_no_ref [OF assms(2,3)]
  by (auto simp: dict_get_def)

lemma example_str_upper: "str_upper example_runtime = example_upper"
  by (simp add: example_runtime_def)

lemmas gps_eval = get_gps_info_def dict_get_def resolve_gps_tags_def dict_of_items_def
  gps_report_of_def signed_coordinate_def convert_to_degrees_def convert_to_degrees_body_def
  to_float_rational_def float_quotient_def attr_or_def py_or_def
  example_str_upper example_upper_def example_upper_char_def startswith_def decode_bytes_def

lemma convert_10_30_0:
  "convert_to_degrees R (PTuple [PInt 10, PInt 30, PInt 0]) = Inr (Some (Fin (21 / 2)))"
  by (simp add: convert_to_degrees_def convert_to_degrees_body_def to_float_rational_def
      float_eval)

lemma convert_20_15_0:
  "convert_to_degrees R (PTuple [PInt 20, PInt 15, PInt 0]) = Inr (Some (Fin (81 / 4)))"
  by (simp add: convert_to_degrees_def convert_to_degrees_body_def to_float_rational_def
      float_eval)

lemma example_GPSTAGS:
  "GPSTAGS example_runtime = map_of [(1, ''GPSLatitudeRef''), (2, ''GPSLatitude''),
                        (3, ''GPSLongitudeRef''), (4, ''GPSLongitude'')]"
  by (simp add: example_runtime_def)

lemma example_TAGS:
  "TAGS example_runtime = map_of [(271, ''Make''), (272, ''Model''), (306, ''DateTime''),
                     (34853, ''GPSInfo''), (36867, ''DateTimeOriginal'')]"
  by (simp add: example_runtime_def)

lemmas report_eval = get_gps_info_def dict_get_def resolve_gps_tags_def dict_of_items_def
  gps_report_of_def signed_coordinate_def example_str_upper example_upper_def
  example_upper_char_def startswith_def example_GPSTAGS example_TAGS

lemma gps_north:
  "get_gps_info example_runtime
     [(''GPSInfo'', PDict [(KInt 1, PStr ''N''), (KInt 2, PTuple [PInt 10, PInt 30, PInt 0])])]
   = Inr (Some \<lparr>raw = [(KStr ''GPSLatitudeRef'', PStr ''N''),
                        (KStr ''GPSLatitude'', PList [PInt 10, PInt 30, PInt 0])],
                 latitude = Some (Fin (21 / 2)), longitude = None\<rparr>)"
  by (simp add: report_eval convert_10_30_0)

lemma gps_south:
  "get_gps_info example_runtime
     [(''GPSInfo'', PDict [(KInt 1, PStr ''S''), (KInt 2, PTuple [PInt 10, PInt 30, PInt 0])])]
   = Inr (Some \<lparr>raw = [(KStr ''GPSLatitudeRef'', PStr ''S''),
                        (KStr ''GPSLatitude'', PList [PInt 10, PInt 30, PInt 0])],
                 latitude = Some (Fin (- 21 / 2)), longitude = None\<rparr>)"
  by (simp add: report_eval convert_10_30_0)

lemma gps_south_lower:
  "get_gps_info example_runtime
     [(''GPSInfo'', PDict [(KInt 1, PStr ''s''), (KInt 2, PTuple [PInt 10, PInt 30, PInt 0])])]
   = Inr (Some \<lparr>raw = [(KStr ''GPSLatitudeRef'', PStr ''s''),
                        (KStr ''GPSLatitude'', PList [PInt 10, PInt 30, PInt 0])],
                 latitude = Some (Fin (- 21 / 2)), longitude = None\<rparr>)"
  by (simp add: report_eval convert_10_30_0)

lemma gps_sharp_s:
  "get_gps_info example_runtime
     [(''GPSInfo'', PDict [(KInt 1, PStr [CHR 0xDF]),
                          (KInt 2, PTuple [PInt 10, PInt 30, PInt 0])])]
   = Inr (Some \<lparr>raw = [(KStr ''GPSLatitudeRef'', PStr [CHR 0xDF]),
                        (KStr ''GPSLatitude'', PList [PInt 10, PInt 30, PInt 0])],
                 latitude = Some (Fin (- 21 / 2)), longitude = None\<rparr>)"
  by (simp add: report_eval convert_10_30_0)

lemma gps_west_lower:
  "get_gps_info example_runtime
     [(''GPSInfo'', PDict [(KInt 3, PStr ''w''), (KInt 4, PTuple [PInt 20, PInt 15, PInt 0])])]
   = Inr (Some \<lparr>raw = [(KStr ''GPSLongitudeRef'', PStr ''w''),
                        (KStr ''GPSLongitude'', PList [PInt 20, PInt 15, PInt 0])],
                 latitude = None, longitude = Some (Fin (- 81 / 4))\<rparr>)"
  by (simp add: report_eval convert_20_15_0)

lemma gps_east:
  "get_gps_info example_runtime
     [(''GPSInfo'', PDict [(KInt 3, PStr ''E''), (KInt 4, PTuple [PInt 20, PInt 15, PInt 0])])]
   = Inr (Some \<lparr>raw = [(KStr ''GPSLongitudeRef'', PStr ''E''),
                        (KStr ''GPSLongitude'', PList [PInt 20, PInt 15, PInt 0])],
                 latitude = None, longitude = Some (Fin (81 / 4))\<rparr>)"
  by (simp add: report_eval convert_20_15_0)

lemma example_upper_sharp_s: "str_upper example_runtime [CHR 0xDF] = ''SS''"
  by (simp add: example_str_upper example_upper_def example_upper_char_def)

lemma get_gps_info_report:
  assumes "get_gps_info R exif_data = Inr (Some rep)"
    and "dict_get exif_data ''GPSInfo'' = PDict kvs"
  shows "gps_report_of R (resolve_gps_tags R kvs) = Inr rep"
  using assms by (auto simp: get_gps_info_def and_then_eq_Inr split: if_splits)



text \<open>
  Claim C2. A list or tuple of three elements that convert to the floats \<open>d\<close>, \<open>m\<close> and
  \<open>s\<close> decodes to \<open>d + m / 60.0 + s / 3600.0\<close>, in float arithmetic. In the report of
  \<open>get_gps_info\<close>, a latitude that decodes to \<open>c\<close> is \<open>c\<close> when there is no
  \<^verbatim>\<open>GPSLatitudeRef\<close>, and with a reference that is text (or bytes, decoded) it is \<open>- c\<close>
  exactly when the text is not empty and its upper case, taken by \<^verbatim>\<open>str.upper\<close> on the whole
  text, starts with \<^verbatim>\<open>S\<close>; the same holds of the longitude, \<^verbatim>\<open>GPSLongitudeRef\<close> and
  \<^verbatim>\<open>W\<close>. The triple (10, 30, 0) gives the latitude 10.5 with the reference \<^verbatim>\<open>N\<close> and
  -10.5 with \<^verbatim>\<open>S\<close>, with the lower-case \<^verbatim>\<open>s\<close> and with the sharp s, whose upper case is
  \<^verbatim>\<open>SS\<close>; the triple (20, 15, 0) gives the longitude 20.25 with the reference \<^verbatim>\<open>E\<close> and
  -20.25 with the lower-case \<^verbatim>\<open>w\<close>.
\<close>

theorem gps_decimal_degrees:
  "(\<forall>R v x y z d m s.
      seq_items v = Some [x, y, z] \<and> to_float_rational R x = Inr d
      \<and> to_float_rational R y = Inr m \<and> to_float_rational R z = Inr s
      \<longrightarrow> convert_to_degrees R v
          = Inr (Some (float_add (float_add d (float_div m (Fin 60))) (float_div s (Fin 3600)))))
   \<and> (\<forall>R exif_data kvs rep v c.
      get_gps_info R exif_data = Inr (Some rep) \<and> dict_get exif_data ''GPSInfo'' = PDict kvs
      \<and> map_of (resolve_gps_tags R kvs) (KStr ''GPSLatitude'') = Some v
      \<and> convert_to_degrees R v = Inr (Some c)
      \<longrightarrow> (map_of (resolve_gps_tags R kvs) (KStr ''GPSLatitudeRef'') = None
             \<longrightarrow> latitude rep = Some c)
        \<and> (\<forall>r. map_of (resolve_gps_tags R kvs) (KStr ''GPSLatitudeRef'') = Some (PStr r)
             \<longrightarrow> latitude rep
               = Some (if r \<noteq> [] \<and> startswith (str_upper R r) ''S'' then float_neg c else c))
        \<and> (\<forall>bs. map_of (resolve_gps_tags R kvs) (KStr ''GPSLatitudeRef'') = Some (PBytes bs)
             \<longrightarrow> latitude rep
               = Some (if decode_bytes R bs \<noteq> []
                          \<and> startswith (str_upper R (decode_bytes R bs)) ''S''
                       then float_neg c else c)))
   \<and> (\<forall>R exif_data kvs rep v c.
      get_gps_info R exif_data = Inr (Some rep) \<and> dict_get exif_data ''GPSInfo'' = PDict kvs
      \<and> map_of (resolve_gps_tags R kvs) (KStr ''GPSLongitude'') = Some v
      \<and> convert_to_degrees R v = Inr (Some c)
      \<longrightarrow> (map_of (resolve_gps_tags R kvs) (KStr ''GPSLongitudeRef'') = None
             \<longrightarrow> longitude rep = Some c)
        \<and> (\<forall>r. map_of (resolve_gps_tags R kvs) (KStr ''GPSLongitudeRef'') = Some (PStr r)
             \<longrightarrow> longitude rep
               = Some (if r \<noteq> [] \<and> startswith (str_upper R r) ''W'' then float_neg c else c))
        \<and> (\<forall>bs. map_of (resolve_gps_tags R kvs) (KStr ''GPSLongitudeRef'') = Some (PBytes bs)
             \<longrightarrow> longitude rep
               = Some (if decode_bytes R bs \<noteq> []
                          \<and> startswith (str_upper R (decode_bytes R bs)) ''W''
                       then float_neg c else c)))
   \<and> (\<exists>rep. get_gps_info example_runtime
         [(''GPSInfo'', PDict [(KInt 1, PStr ''N''), (KInt 2, PTuple [PInt 10, PInt 30, PInt 0])])]
         = Inr (Some rep) \<and> latitude rep = Some (Fin (21 / 2)))
   \<and> (\<exists>rep. get_gps_info example_runtime
         [(''GPSInfo'', PDict [(KInt 1, PStr ''S''), (KInt 2, PTuple [PInt 10, PInt 30, PInt 0])])]
         = Inr (Some rep) \<and> latitude rep = Some (Fin (- 21 / 2)))
   \<and> (\<exists>rep. get_gps_info example_runtime
         [(''GPSInfo'', PDict [(KInt 1, PStr ''s''), (KInt 2, PTuple [PInt 10, PInt 30, PInt 0])])]
         = Inr (Some rep) \<and> latitude rep = Some (Fin (- 21 / 2)))
   \<and> (\<exists>rep. get_gps_info example_runtime
         [(''GPSInfo'', PDict [(KInt 1, PStr [CHR 0xDF]),
                              (KInt 2, PTuple [PInt 10, PInt 30, PInt 0])])]
         = Inr (Some rep) \<and> latitude rep = Some (Fin (- 21 / 2)))
   \<and> (\<exists>rep. get_gps_info example_runtime
         [(''GPSInfo'', PDict [(KInt 3, PStr ''E''), (KInt 4, PTuple [PInt 20, PInt 15, PInt 0])])]
         = Inr (Some rep) \<and> longitude rep = Some (Fin (81 / 4)))
   \<and> (\<exists>rep. get_gps_info example_runtime
         [(''GPSInfo'', PDict [(KInt 3, PStr ''w''), (KInt 4, PTuple [PInt 20, PInt 15, PInt 0])])]
         = Inr (Some rep) \<and> longitude rep = Some (Fin (- 81 / 4)))"
proof -
  have triple: "convert_to_degrees R v
      = Inr (Some (float_add (float_add d (float_div m (Fin 60))) (float_div s (Fin 3600))))"
    if "seq_items v = Some [x, y, z]" "to_float_rational R x = Inr d"
      "to_float_rational R y = Inr m" "to_float_rational R z = Inr s" for R v x y z d m s
    using convert_to_degrees_body_triple [OF that] by (simp add: convert_to_degrees_def)
  have lat: "(map_of (resolve_gps_tags R kvs) (KStr ''GPSLatitudeRef'') = None
             \<longrightarrow> latitude rep = Some c)
        \<and> (\<forall>r. map_of (resolve_gps_tags R kvs) (KStr ''GPSLatitudeRef'') = Some (PStr r)
             \<longrightarrow> latitude rep
               = Some (if r \<noteq> [] \<and> startswith (str_upper R r) ''S'' then float_neg c else c))
        \<and> (\<forall>bs. map_of (resolve_gps_tags R kvs) (KStr ''GPSLatitudeRef'') = Some (PBytes bs)
             \<longrightarrow> latitude rep
               = Some (if decode_bytes R bs \<noteq> []
                          \<and> startswith (str_upper R (decode_bytes R bs)) ''S''
                       then float_neg c else c))"
    if "get_gps_info R exif_data = Inr (Some rep)" "dict_get exif_data ''GPSInfo'' = PDict kvs"
      "map_of (resolve_gps_tags R kvs) (KStr ''GPSLatitude'') = Some v"
      "convert_to_degrees R v = Inr (Some c)" for R exif_data kvs rep v c
    using coordinate_sign [OF gps_report_of_latitude [OF get_gps_info_report [OF that(1,2)]] that(3,4)]
    by simp
  have lon: "(map_of (resolve_gps_tags R kvs) (KStr ''GPSLongitudeRef'') = None
             \<longrightarrow> longitude rep = Some c)
        \<and> (\<forall>r. map_of (resolve_gps_tags R kvs) (KStr ''GPSLongitudeRef'') = Some (PStr r)
             \<longrightarrow> longitude rep
               = Some (if r \<noteq> [] \<and> startswith (str_upper R r) ''W'' then float_neg c else c))
        \<and> (\<forall>bs. map_of (resolve_gps_tags R kvs) (KStr ''GPSLongitudeRef'') = Some (PBytes bs)
             \<longrightarrow> longitude rep
               = Some (if decode_bytes R bs \<noteq> []
                          \<and> startswith (str_upper R (decode_bytes R bs)) ''W''
                       then float_neg c else c))"
    if "get_gps_info R exif_data = Inr (Some rep)" "dict_get exif_data ''GPSInfo'' = PDict kvs"
      "map_of (resolve_gps_tags R kvs) (KStr ''GPSLongitude'') = Some v"
      "convert_to_degrees R v = Inr (Some c)" for R exif_data kvs rep v c
    using coordinate_sign [OF gps_report_of_longitude [OF get_gps_info_report [OF that(1,2)]] that(3,4)]
    by simp
  have north: "\<exists>rep. get_gps_info example_runtime
         [(''GPSInfo'', PDict [(KInt 1, PStr ''N''), (KInt 2, PTuple [PInt 10, PInt 30, PInt 0])])]
         = Inr (Some rep) \<and> latitude rep = Some (Fin (21 / 2))"
    by (simp add: gps_north)
  have south: "\<exists>rep. get_gps_info example_runtime
         [(''GPSInfo'', PDict [(KInt 1, PStr ''S''), (KInt 2, PTuple [PInt 10, PInt 30, PInt 0])])]
         = Inr (Some rep) \<and> latitude rep = Some (Fin (- 21 / 2))"
    by (simp add: gps_south)
  have south_lower: "\<exists>rep. get_gps_info example_runtime
         [(''GPSInfo'', PDict [(KInt 1, PStr ''s''), (KInt 2, PTuple [PInt 10, PInt 30, PInt 0])])]
         = Inr (Some rep) \<and> latitude rep = Some (Fin (- 21 / 2))"
    by (simp add: gps_south_lower)
  have sharp: "\<exists>rep. get_gps_info example_runtime
         [(''GPSInfo'', PDict [(KInt 1, PStr [CHR 0xDF]),
                              (KInt 2, PTuple [PInt 10, PInt 30, PInt 0])])]
         = Inr (Some rep) \<and> latitude rep = Some (Fin (- 21 / 2))"
    by (simp add: gps_sharp_s)
  have east: "\<exists>rep. get_gps_info example_runtime
         [(''GPSInfo'', PDict [(KInt 3, PStr ''E''), (KInt 4, PTuple [PInt 20, PInt 15, PInt 0])])]
         = Inr (Some rep) \<and> longitude rep = Some (Fin (81 / 4))"
    by (simp add: gps_east)
  have west_lower: "\<exists>rep. get_gps_info example_runtime
         [(''GPSInfo'', PDict [(KInt 3, PStr ''w''), (KInt 4, PTuple [PInt 20, PInt 15, PInt 0])])]
         = Inr (Some rep) \<and> longitude rep = Some (Fin (- 81 / 4))"
    by (simp add: gps_west_lower)
  show ?thesis
    apply (intro conjI allI impI)
    subgoal for R v x y z d m s using triple [of v x y z R d m s] by blast
    subgoal for R exif_data kvs rep v c using lat [of R exif_data rep kvs v c] by blast
    subgoal for R exif_data kvs rep v c r using lat [of R exif_data rep kvs v c] by blast
    subgoal for R exif_data kvs rep v c bs using lat [of R exif_data rep kvs v c] by blast
    subgoal for R exif_data kvs rep v c using lon [of R exif_data rep kvs v c] by blast
    subgoal for R exif_data kvs rep v c r using lon [of R exif_data rep kvs v c] by blast
    subgoal for R exif_data kvs rep v c bs using lon [of R exif_data rep kvs v c] by blast
    subgoal by (rule north)
    subgoal by (rule south)
    subgoal by (rule south_lower)
    subgoal by (rule sharp)
    subgoal by (rule east)
    subgoal by (rule west_lower)
    done
qed

text \<open>
  The triple (10, 30, 0) with its three conversions, and the report for that latitude with
  the lower-case reference \<^verbatim>\<open>s\<close>, whose upper case \<^verbatim>\<open>S\<close> starts with \<^verbatim>\<open>S\<close>.
\<close>

theorem gps_decimal_degrees_witness:
  "seq_items (PTuple [PInt 10, PInt 30, PInt 0]) = Some [PInt 10, PInt 30, PInt 0]
   \<and> to_float_rational example_runtime (PInt 10) = Inr (Fin 10)
   \<and> to_float_rational example_runtime (PInt 30) = Inr (Fin 30)
   \<and> to_float_rational example_runtime (PInt 0) = Inr (Fin 0)
   \<and> convert_to_degrees example_runtime (PTuple [PInt 10, PInt 30, PInt 0])
     = Inr (Some (float_add (float_add (Fin 10) (float_div (Fin 30) (Fin 60)))
                   (float_div (Fin 0) (Fin 3600))))
   \<and> float_add (float_add (Fin 10) (float_div (Fin 30) (Fin 60))) (float_div (Fin 0) (Fin 3600))
     = Fin (21 / 2)
   \<and> get_gps_info example_runtime
       [(''GPSInfo'', PDict [(KInt 1, PStr ''s''), (KInt 2, PTuple [PInt 10, PInt 30, PInt 0])])]
     = Inr (Some \<lparr>raw = [(KStr ''GPSLatitudeRef'', PStr ''s''),
                          (KStr ''GPSLatitude'', PList [PInt 10, PInt 30, PInt 0])],
                   latitude = Some (Fin (- 21 / 2)), longitude = None\<rparr>)
   \<and> dict_get [(''GPSInfo'', PDict [(KInt 1, PStr ''s''), (KInt 2, PTuple [PInt 10, PInt 30, PInt 0])])]
       ''GPSInfo''
     = PDict [(KInt 1, PStr ''s''), (KInt 2, PTuple [PInt 10, PInt 30, PInt 0])]
   \<and> map_of (resolve_gps_tags example_runtime
               [(KInt 1, PStr ''s''), (KInt 2, PTuple [PInt 10, PInt 30, PInt 0])])
       (KStr ''GPSLatitude'') = Some (PTuple [PInt 10, PInt 30, PInt 0])
   \<and> map_of (resolve_gps_tags example_runtime
               [(KInt 1, PStr ''s''), (KInt 2, PTuple [PInt 10, PInt 30, PInt 0])])
       (KStr ''GPSLatitudeRef'') = Some (PStr ''s'')
   \<and> convert_to_degrees example_runtime (PTuple [PInt 10, PInt 30, PInt 0])
     = Inr (Some (Fin (21 / 2)))
   \<and> str_upper example_runtime ''s'' = ''S''
   \<and> latitude \<lparr>raw = [(KStr ''GPSLatitudeRef'', PStr ''s''),
                       (KStr ''GPSLatitude'', PList [PInt 10, PInt 30, PInt 0])],
                latitude = Some (Fin (- 21 / 2)), longitude = None\<rparr>
     = Some (if ''s'' \<noteq> [] \<and> startswith (str_upper example_runtime ''s'') ''S''
             then float_neg (Fin (21 / 2)) else Fin (21 / 2))"
proof -
  have s: "seq_items (PTuple [PInt 10, PInt 30, PInt 0]) = Some [PInt 10, PInt 30, PInt 0]"
    by simp
  have x: "to_float_rational example_runtime (PInt 10) = Inr (Fin 10)"
    by (simp add: to_float_rational_def float_eval)
  have y: "to_float_rational example_runtime (PInt 30) = Inr (Fin 30)"
    by (simp add: to_float_rational_def float_eval)
  have z: "to_float_rational example_runtime (PInt 0) = Inr (Fin 0)"
    by (simp add: to_float_rational_def float_eval)
  have c: "convert_to_degrees example_runtime (PTuple [PInt 10, PInt 30, PInt 0])
     = Inr (Some (float_add (float_add (Fin 10) (float_div (Fin 30) (Fin 60)))
                   (float_div (Fin 0) (Fin 3600))))"
    using gps_decimal_degrees [THEN conjunct1, rule_format,
        of "PTuple [PInt 10, PInt 30, PInt 0]" "PInt 10" "PInt 30" "PInt 0" example_runtime
          "Fin 10" "Fin 30" "Fin 0"] s x y z
    by simp
  have v: "float_add (float_add (Fin 10) (float_div (Fin 30) (Fin 60))) (float_div (Fin 0) (Fin 3600))
     = Fin (21 / 2)"
    by (simp add: float_eval)
  have g: "get_gps_info example_runtime
       [(''GPSInfo'', PDict [(KInt 1, PStr ''s''), (KInt 2, PTuple [PInt 10, PInt 30, PInt 0])])]
     = Inr (Some \<lparr>raw = [(KStr ''GPSLatitudeRef'', PStr ''s''),
                          (KStr ''GPSLatitude'', PList [PInt 10, PInt 30, PInt 0])],
                   latitude = Some (Fin (- 21 / 2)), longitude = None\<rparr>)"
    by (rule gps_south_lower)
  have d: "dict_get [(''GPSInfo'', PDict [(KInt 1, PStr ''s''), (KInt 2, PTuple [PInt 10, PInt 30, PInt 0])])]
       ''GPSInfo''
     = PDict [(KInt 1, PStr ''s''), (KInt 2, PTuple [PInt 10, PInt 30, PInt 0])]"
    by (simp add: dict_get_def)
  have m1: "map_of (resolve_gps_tags example_runtime
               [(KInt 1, PStr ''s''), (KInt 2, PTuple [PInt 10, PInt 30, PInt 0])])
       (KStr ''GPSLatitude'') = Some (PTuple [PInt 10, PInt 30, PInt 0])"
    by (simp add: resolve_gps_tags_def dict_of_items_def example_GPSTAGS)
  have m2: "map_of (resolve_gps_tags example_runtime
               [(KInt 1, PStr ''s''), (KInt 2, PTuple [PInt 10, PInt 30, PInt 0])])
       (KStr ''GPSLatitudeRef'') = Some (PStr ''s'')"
    by (simp add: resolve_gps_tags_def dict_of_items_def example_GPSTAGS)
  have c': "convert_to_degrees example_runtime (PTuple [PInt 10, PInt 30, PInt 0])
     = Inr (Some (Fin (21 / 2)))"
    using c v by simp
  have u: "str_upper example_runtime ''s'' = ''S''"
    by (simp add: example_str_upper example_upper_def example_upper_char_def)
  have l: "latitude \<lparr>raw = [(KStr ''GPSLatitudeRef'', PStr ''s''),
                       (KStr ''GPSLatitude'', PList [PInt 10, PInt 30, PInt 0])],
                latitude = Some (Fin (- 21 / 2)), longitude = None\<rparr>
     = Some (if ''s'' \<noteq> [] \<and> startswith (str_upper example_runtime ''s'') ''S''
             then float_neg (Fin (21 / 2)) else Fin (21 / 2))"
    using gps_decimal_degrees [THEN conjunct2, THEN conjunct1, rule_format, OF conjI [OF g conjI [OF d conjI [OF m1 c']]],
        THEN conjunct2, THEN conjunct1, rule_format, OF m2]
    by simp
  from s x y z c v g d m1 m2 c' u l show ?thesis by simp
qed

text \<open>
  The specification takes the upper case of the first character of the reference and
  compares it with \<^verbatim>\<open>S\<close>. The code takes the upper case of the whole text and asks whether
  it starts with \<^verbatim>\<open>S\<close> (line 197). The two differ on the reference that is a sharp s: its
  first character in upper case is \<^verbatim>\<open>SS\<close>, which is not \<^verbatim>\<open>S\<close>, and the latitude of the
  triple (10, 30, 0), which decodes to 10.5, is reported as -10.5.
\<close>

theorem gps_sign_sharp_s_negated:
  "str_upper example_runtime [hd [CHR 0xDF]] = ''SS''
   \<and> ''SS'' \<noteq> ''S''
   \<and> convert_to_degrees example_runtime (PTuple [PInt 10, PInt 30, PInt 0])
     = Inr (Some (Fin (21 / 2)))
   \<and> get_gps_info example_runtime
       [(''GPSInfo'', PDict [(KInt 1, PStr [CHR 0xDF]),
                            (KInt 2, PTuple [PInt 10, PInt 30, PInt 0])])]
     = Inr (Some \<lparr>raw = [(KStr ''GPSLatitudeRef'', PStr [CHR 0xDF]),
                          (KStr ''GPSLatitude'', PList [PInt 10, PInt 30, PInt 0])],
                   latitude = Some (Fin (- 21 / 2)), longitude = None\<rparr>)"
proof -
  have u: "str_upper example_runtime [hd [CHR 0xDF]] = ''SS''"
    by (simp add: example_upper_sharp_s)
  have n: "''SS'' \<noteq> ''S''" by simp
  from u n convert_10_30_0 [of example_runtime] gps_sharp_s show ?thesis by simp
qed




section \<open>Properties of the report\<close>

text \<open>
  Claim C6. The value of an entry is the display text of the tag, \<^verbatim>\<open>str(display_value)\<close>:
  unchanged when it has 200 characters or less, and otherwise its first 200 characters
  followed by \<^verbatim>\<open>... (truncated)\<close>, 215 characters in all.
\<close>

theorem display_value_truncated:
  "(\<forall>R item e. exif_entry_of R item = Inr e
      \<longrightarrow> (\<exists>value_str. value_str_of R (snd item) = Inr value_str
            \<and> val e = (if 200 < length value_str
                       then take 200 value_str @ ''... (truncated)'' else value_str)))
   \<and> (\<forall>s. 200 < length s
      \<longrightarrow> truncate_value s = take 200 s @ ''... (truncated)'' \<and> length (truncate_value s) = 215)
   \<and> (\<forall>s. length s \<le> 200 \<longrightarrow> truncate_value s = s)"
proof -
  have entry: "\<exists>value_str. value_str_of R (snd item) = Inr value_str
            \<and> val e = (if 200 < length value_str
                       then take 200 value_str @ ''... (truncated)'' else value_str)"
    if "exif_entry_of R item = Inr e" for R item e
    using that by (auto simp: exif_entry_of_def and_then_eq_Inr truncate_value_def)
  have long: "truncate_value s = take 200 s @ ''... (truncated)'' \<and> length (truncate_value s) = 215"
    if "200 < length s" for s
    using that by (simp add: truncate_value_def)
  have short: "truncate_value s = s" if "length s \<le> 200" for s
    using that by (simp add: truncate_value_def)
  from entry long short show ?thesis by blast
qed

text \<open>A text of 250 characters and a text of 200 characters, as the values of a tag.\<close>

theorem display_value_truncated_witness:
  "exif_entry_of example_runtime (''UserComment'', PStr (replicate 250 CHR ''x''))
     = Inr \<lparr>tag = ''UserComment'', val = replicate 200 CHR ''x'' @ ''... (truncated)'',
            is_sensitive = False\<rparr>
   \<and> value_str_of example_runtime (PStr (replicate 250 CHR ''x'')) = Inr (replicate 250 CHR ''x'')
   \<and> 200 < length (replicate 250 CHR ''x'')
   \<and> truncate_value (replicate 250 CHR ''x'') = take 200 (replicate 250 CHR ''x'') @ ''... (truncated)''
   \<and> length (truncate_value (replicate 250 CHR ''x'')) = 215
   \<and> length (replicate 200 CHR ''x'') \<le> 200
   \<and> truncate_value (replicate 200 CHR ''x'') = replicate 200 CHR ''x''"
proof -
  note th = display_value_truncated
  have v: "value_str_of example_runtime (PStr (replicate 250 CHR ''x'')) = Inr (replicate 250 CHR ''x'')"
    by (simp add: value_str_of_def display_sequence_def display_simple_def)
  have l: "200 < length (replicate 250 CHR ''x'')" by simp
  have t: "truncate_value (replicate 250 CHR ''x'') = take 200 (replicate 250 CHR ''x'') @ ''... (truncated)''
    \<and> length (truncate_value (replicate 250 CHR ''x'')) = 215"
    using th [THEN conjunct2, THEN conjunct1, rule_format, OF l] .
  have e: "exif_entry_of example_runtime (''UserComment'', PStr (replicate 250 CHR ''x''))
     = Inr \<lparr>tag = ''UserComment'', val = replicate 200 CHR ''x'' @ ''... (truncated)'',
            is_sensitive = False\<rparr>"
    using v t by (simp add: exif_entry_of_def SENSITIVE_TAGS_def)
  have s: "length (replicate 200 CHR ''x'') \<le> 200" by simp
  have u: "truncate_value (replicate 200 CHR ''x'') = replicate 200 CHR ''x''"
    using th [THEN conjunct2, THEN conjunct2, rule_format, OF s] .
  from v l t e s u show ?thesis by simp
qed

lemma analyze_body_cases:
  assumes "analyze_body R img sz getexif = Inr r"
  shows "(gps r = None \<and> \<not> has_gps (flags r))
    \<or> (\<exists>b exif_data g exif_list.
          get_exif_data R getexif = Inr exif_data \<and> exif_data \<noteq> []
          \<and> get_gps_info R exif_data = Inr g \<and> gps r = g
          \<and> has_gps (flags r)
              = (case g of None \<Rightarrow> False | Some x \<Rightarrow> latitude x \<noteq> None \<and> longitude x \<noteq> None))"
  using assms
  by (auto simp: analyze_body_def and_then_eq_Inr no_exif_report_def split: if_splits)

text \<open>
  Claim C4. In every report that \<open>analyze\<close> assembles, the flag \<^verbatim>\<open>has_gps\<close> is true if
  and only if the report has a GPS block whose latitude and longitude are both floats.
  When \<open>get_gps_info\<close> returns a block in which a coordinate is \<^verbatim>\<open>None\<close>, the report
  holds that block and the flag is false.
\<close>

theorem has_gps_iff:
  "(\<forall>R img sz getexif r. analyze R img sz getexif = Ok200 r
      \<longrightarrow> (has_gps (flags r)
           \<longleftrightarrow> (\<exists>g x y. gps r = Some g \<and> latitude g = Some x \<and> longitude g = Some y)))
   \<and> (\<forall>R img sz getexif r exif_data g.
        analyze R img sz getexif = Ok200 r \<and> get_exif_data R getexif = Inr exif_data
        \<and> get_gps_info R exif_data = Inr (Some g)
        \<and> (latitude g = None \<or> longitude g = None)
      \<longrightarrow> gps r = Some g \<and> \<not> has_gps (flags r))"
proof -
  have body: "analyze_body R img sz getexif = Inr r"
    if "analyze R img sz getexif = Ok200 r" for R img sz getexif r
    using that by (simp add: analyze_def split: sum.splits)
  have iff: "has_gps (flags r)
           \<longleftrightarrow> (\<exists>g x y. gps r = Some g \<and> latitude g = Some x \<and> longitude g = Some y)"
    if "analyze R img sz getexif = Ok200 r" for R img sz getexif r
    using analyze_body_cases [OF body [OF that]] by (auto split: option.splits)
  have present: "gps r = Some g \<and> \<not> has_gps (flags r)"
    if "analyze R img sz getexif = Ok200 r" "get_exif_data R getexif = Inr exif_data"
      "get_gps_info R exif_data = Inr (Some g)" "latitude g = None \<or> longitude g = None"
    for R img sz getexif r exif_data g
  proof -
    from that(3) have "exif_data \<noteq> []"
      by (auto simp: get_gps_info_def dict_get_def)
    with body [OF that(1)] that(2,3,4) show ?thesis
      by (auto simp: analyze_body_def and_then_eq_Inr split: if_splits)
  qed
  show ?thesis
    apply (intro conjI allI impI)
    subgoal for R img sz getexif r using iff [of R img sz getexif r] by blast
    subgoal for R img sz getexif r exif_data g
      using present [of R img sz getexif r exif_data g] by blast
    subgoal for R img sz getexif r exif_data g
      using present [of R img sz getexif r exif_data g] by blast
    done
qed

section \<open>The scenarios\<close>

lemma format_size_1536: "format_size 1536 = Inr ''1.50 KB''"
  by (simp add: format_size_def units_def float_eval text_eval)

lemma example_container_repr: "container_repr example_runtime v = Inr ''[...]''"
  by (simp add: example_runtime_def)

lemma example_basic_info:
  "get_basic_info example_image 1536
   = Inr \<lparr>file_name = ''photo.jpg'', format = Some ''JPEG'', mode = ''RGB'',
          resolution = ''640 x 480 px'', width = 640, height = 480, file_size = ''1.50 KB''\<rparr>"
  by (simp add: get_basic_info_def example_image_def format_size_1536 text_eval)

lemmas entry_eval = exif_entry_of_def value_str_of_def display_sequence_def display_simple_def
  truncate_value_def SENSITIVE_TAGS_def example_container_repr

lemma full_exif:
  "get_exif_data example_runtime (Inr full_scenario)
   = Inr [(''DateTimeOriginal'', PStr ''2020:01:01 12:00:00''), (''Model'', PStr ''Camera X''),
          (''GPSInfo'', PDict [(KInt 2, PTuple [PInt 10, PInt 30, PInt 0]), (KInt 1, PStr ''N''),
                               (KInt 4, PTuple [PInt 20, PInt 15, PInt 0]), (KInt 3, PStr ''W'')])]"
  by (simp add: get_exif_data_def full_scenario_def dict_of_items_def example_TAGS text_eval)

lemma full_gps:
  "get_gps_info example_runtime
     [(''DateTimeOriginal'', PStr ''2020:01:01 12:00:00''), (''Model'', PStr ''Camera X''),
      (''GPSInfo'', PDict [(KInt 2, PTuple [PInt 10, PInt 30, PInt 0]), (KInt 1, PStr ''N''),
                           (KInt 4, PTuple [PInt 20, PInt 15, PInt 0]), (KInt 3, PStr ''W'')])]
   = Inr (Some \<lparr>raw = [(KStr ''GPSLatitude'', PList [PInt 10, PInt 30, PInt 0]),
                        (KStr ''GPSLatitudeRef'', PStr ''N''),
                        (KStr ''GPSLongitude'', PList [PInt 20, PInt 15, PInt 0]),
                        (KStr ''GPSLongitudeRef'', PStr ''W'')],
                 latitude = Some (Fin (21 / 2)), longitude = Some (Fin (- (81 / 4)))\<rparr>)"
  by (simp add: report_eval convert_10_30_0 convert_20_15_0)

lemma full_report:
  "analyze example_runtime example_image 1536 (Inr full_scenario)
   = Ok200 \<lparr>success = True,
       basic = \<lparr>file_name = ''photo.jpg'', format = Some ''JPEG'', mode = ''RGB'',
                 resolution = ''640 x 480 px'', width = 640, height = 480,
                 file_size = ''1.50 KB''\<rparr>,
       exif = [\<lparr>tag = ''DateTimeOriginal'', val = ''2020:01:01 12:00:00'', is_sensitive = True\<rparr>,
               \<lparr>tag = ''Model'', val = ''Camera X'', is_sensitive = True\<rparr>,
               \<lparr>tag = ''GPSInfo'', val = ''[...]'', is_sensitive = True\<rparr>],
       gps = Some \<lparr>raw = [(KStr ''GPSLatitude'', PList [PInt 10, PInt 30, PInt 0]),
                           (KStr ''GPSLatitudeRef'', PStr ''N''),
                           (KStr ''GPSLongitude'', PList [PInt 20, PInt 15, PInt 0]),
                           (KStr ''GPSLongitudeRef'', PStr ''W'')],
                    latitude = Some (Fin (21 / 2)), longitude = Some (Fin (- (81 / 4)))\<rparr>,
       flags = \<lparr>has_gps = True, has_datetime = True, has_camera_model = True\<rparr>,
       message = ''Metadata analyzed successfully.''\<rparr>"
  by (simp add: analyze_def analyze_body_def example_basic_info full_exif full_gps entry_eval)

lemma convert_one_element: "convert_to_degrees R (PTuple [PInt 10]) = Inr None"
  by (simp add: convert_to_degrees_def convert_to_degrees_body_def to_float_rational_def
      float_eval attr_or_def py_or_def)

lemma malformed_exif:
  "get_exif_data example_runtime (Inr malformed_gps_scenario)
   = Inr [(''GPSInfo'', PDict [(KInt 2, PTuple [PInt 10])])]"
  by (simp add: get_exif_data_def malformed_gps_scenario_def dict_of_items_def example_TAGS
      text_eval)

lemma malformed_gps:
  "get_gps_info example_runtime [(''GPSInfo'', PDict [(KInt 2, PTuple [PInt 10])])]
   = Inr (Some \<lparr>raw = [(KStr ''GPSLatitude'', PList [PInt 10])],
                 latitude = None, longitude = None\<rparr>)"
  by (simp add: report_eval convert_one_element)

lemma malformed_report:
  "analyze example_runtime example_image 1536 (Inr malformed_gps_scenario)
   = Ok200 \<lparr>success = True,
       basic = \<lparr>file_name = ''photo.jpg'', format = Some ''JPEG'', mode = ''RGB'',
                 resolution = ''640 x 480 px'', width = 640, height = 480,
                 file_size = ''1.50 KB''\<rparr>,
       exif = [\<lparr>tag = ''GPSInfo'', val = ''[...]'', is_sensitive = True\<rparr>],
       gps = Some \<lparr>raw = [(KStr ''GPSLatitude'', PList [PInt 10])],
                    latitude = None, longitude = None\<rparr>,
       flags = \<lparr>has_gps = False, has_datetime = False, has_camera_model = False\<rparr>,
       message = ''Metadata analyzed successfully.''\<rparr>"
  by (simp add: analyze_def analyze_body_def example_basic_info malformed_exif malformed_gps
      entry_eval)

text \<open>
  The full scenario, where both coordinates decode, and the scenario of the malformed
  latitude, where the report holds a GPS block and the flag is false.
\<close>

theorem has_gps_iff_witness:
  "(\<exists>r g. analyze example_runtime example_image 1536 (Inr full_scenario) = Ok200 r
        \<and> gps r = Some g \<and> latitude g = Some (Fin (21 / 2))
        \<and> longitude g = Some (Fin (- (81 / 4))) \<and> has_gps (flags r))
   \<and> (\<exists>r g. analyze example_runtime example_image 1536 (Inr malformed_gps_scenario) = Ok200 r
        \<and> get_exif_data example_runtime (Inr malformed_gps_scenario)
            = Inr [(''GPSInfo'', PDict [(KInt 2, PTuple [PInt 10])])]
        \<and> get_gps_info example_runtime [(''GPSInfo'', PDict [(KInt 2, PTuple [PInt 10])])]
            = Inr (Some g)
        \<and> latitude g = None \<and> gps r = Some g \<and> \<not> has_gps (flags r))"
proof -
  note th = has_gps_iff
  let ?g = "\<lparr>raw = [(KStr ''GPSLatitude'', PList [PInt 10, PInt 30, PInt 0]),
                           (KStr ''GPSLatitudeRef'', PStr ''N''),
                           (KStr ''GPSLongitude'', PList [PInt 20, PInt 15, PInt 0]),
                           (KStr ''GPSLongitudeRef'', PStr ''W'')],
                    latitude = Some (Fin (21 / 2)), longitude = Some (Fin (- (81 / 4)))\<rparr>"
  obtain r where r: "analyze example_runtime example_image 1536 (Inr full_scenario) = Ok200 r"
    and g: "gps r = Some ?g"
    using full_report by simp
  have "\<exists>g x y. gps r = Some g \<and> latitude g = Some x \<and> longitude g = Some y"
    using g by simp
  with th [THEN conjunct1, rule_format, OF r] have h: "has_gps (flags r)" by simp
  have first: "\<exists>r g. analyze example_runtime example_image 1536 (Inr full_scenario) = Ok200 r
        \<and> gps r = Some g \<and> latitude g = Some (Fin (21 / 2))
        \<and> longitude g = Some (Fin (- (81 / 4))) \<and> has_gps (flags r)"
    using r g h by (intro exI [of _ r] exI [of _ ?g]) simp
  let ?b = "\<lparr>raw = [(KStr ''GPSLatitude'', PList [PInt 10])],
                    latitude = None, longitude = None\<rparr>"
  obtain r' where r': "analyze example_runtime example_image 1536 (Inr malformed_gps_scenario) = Ok200 r'"
    using malformed_report by simp
  have l: "latitude ?b = None \<or> longitude ?b = None" by simp
  from th [THEN conjunct2, rule_format, OF conjI [OF r' conjI [OF malformed_exif conjI [OF malformed_gps l]]]]
  have n: "gps r' = Some ?b \<and> \<not> has_gps (flags r')" .
  have second: "\<exists>r g. analyze example_runtime example_image 1536 (Inr malformed_gps_scenario) = Ok200 r
        \<and> get_exif_data example_runtime (Inr malformed_gps_scenario)
            = Inr [(''GPSInfo'', PDict [(KInt 2, PTuple [PInt 10])])]
        \<and> get_gps_info example_runtime [(''GPSInfo'', PDict [(KInt 2, PTuple [PInt 10])])]
            = Inr (Some g)
        \<and> latitude g = None \<and> gps r = Some g \<and> \<not> has_gps (flags r)"
    using r' n malformed_exif malformed_gps by (intro exI [of _ r'] exI [of _ ?b]) simp
  from first second show ?thesis by (rule conjI)
qed

text \<open>
  Claim C10. When the decoded image has its basic information, and the extraction of the
  EXIF tags raises or returns an empty value (\<^verbatim>\<open>None\<close>, an empty dict), \<open>get_exif_data\<close>
  returns the empty dict and \<open>analyze\<close> answers with a report: success, no tag, no GPS
  block, the three flags false and the message that no metadata was found.
\<close>

theorem no_exif_still_succeeds:
  "\<forall>R img sz getexif b.
      get_basic_info img sz = Inr b
      \<and> ((\<exists>e. getexif = Inl e) \<or> (\<exists>v. getexif = Inr v \<and> \<not> py_bool v))
      \<longrightarrow> get_exif_data R getexif = Inr []
        \<and> analyze R img sz getexif
           = Ok200 \<lparr>success = True, basic = b, exif = [], gps = None,
                    flags = \<lparr>has_gps = False, has_datetime = False, has_camera_model = False\<rparr>,
                    message = ''No EXIF metadata found in this image.''\<rparr>"
proof (intro allI impI)
  fix R :: runtime and img sz and getexif :: "exn + pyval" and b
  assume a: "get_basic_info img sz = Inr b
      \<and> ((\<exists>e. getexif = Inl e) \<or> (\<exists>v. getexif = Inr v \<and> \<not> py_bool v))"
  then have e: "get_exif_data R getexif = Inr []"
    by (auto simp: get_exif_data_def)
  with a show "get_exif_data R getexif = Inr []
        \<and> analyze R img sz getexif
           = Ok200 \<lparr>success = True, basic = b, exif = [], gps = None,
                    flags = \<lparr>has_gps = False, has_datetime = False, has_camera_model = False\<rparr>,
                    message = ''No EXIF metadata found in this image.''\<rparr>"
    by (simp add: analyze_def analyze_body_def no_exif_report_def)
qed

text \<open>An extraction that raises, one that returns \<^verbatim>\<open>None\<close> and one that returns no tag.\<close>

theorem no_exif_still_succeeds_witness:
  "get_basic_info example_image 1536
     = Inr \<lparr>file_name = ''photo.jpg'', format = Some ''JPEG'', mode = ''RGB'',
            resolution = ''640 x 480 px'', width = 640, height = 480, file_size = ''1.50 KB''\<rparr>
   \<and> get_exif_data example_runtime (Inl OtherError) = Inr []
   \<and> analyze example_runtime example_image 1536 (Inl OtherError)
     = Ok200 \<lparr>success = True,
              basic = \<lparr>file_name = ''photo.jpg'', format = Some ''JPEG'', mode = ''RGB'',
                        resolution = ''640 x 480 px'', width = 640, height = 480,
                        file_size = ''1.50 KB''\<rparr>,
              exif = [], gps = None,
              flags = \<lparr>has_gps = False, has_datetime = False, has_camera_model = False\<rparr>,
              message = ''No EXIF metadata found in this image.''\<rparr>
   \<and> \<not> py_bool PNone
   \<and> get_exif_data example_runtime (Inr PNone) = Inr []
   \<and> \<not> py_bool (PDict [])
   \<and> get_exif_data example_runtime (Inr (PDict [])) = Inr []
   \<and> (\<exists>r. analyze example_runtime example_image 1536 (Inr (PDict [])) = Ok200 r
          \<and> exif r = [] \<and> gps r = None \<and> success r)"
proof -
  note th = no_exif_still_succeeds [rule_format]
  have r: "(\<exists>e. (Inl OtherError :: exn + pyval) = Inl e)
      \<or> (\<exists>v. (Inl OtherError :: exn + pyval) = Inr v \<and> \<not> py_bool v)"
    by simp
  have n: "(\<exists>e. (Inr PNone :: exn + pyval) = Inl e)
      \<or> (\<exists>v. (Inr PNone :: exn + pyval) = Inr v \<and> \<not> py_bool v)"
    by simp
  have d: "(\<exists>e. (Inr (PDict []) :: exn + pyval) = Inl e)
      \<or> (\<exists>v. (Inr (PDict []) :: exn + pyval) = Inr v \<and> \<not> py_bool v)"
    by simp
  from th [OF conjI [OF example_basic_info r], of example_runtime]
    th [OF conjI [OF example_basic_info n], of example_runtime]
    th [OF conjI [OF example_basic_info d], of example_runtime]
    example_basic_info
  show ?thesis by simp
qed

text \<open>
  Claim C9, at the tag number 9999, which neither table knows. For an EXIF tag the name
  is the text \<^verbatim>\<open>9999\<close>. For a GPS sub-tag it is the number 9999 itself, which is no text:
  the block that \<open>get_gps_info\<close> returns has a key that is an int, and is not a value of
  string keys. A number that the GPS table knows gets its name.
\<close>

theorem gps_tag_unknown_not_text:
  "exif_tag_name example_runtime (KInt 9999) = ''9999''
   \<and> exif_tag_name example_runtime (KInt 272) = ''Model''
   \<and> gps_tag_name example_runtime (KInt 2) = KStr ''GPSLatitude''
   \<and> gps_tag_name example_runtime (KInt 9999) = KInt 9999
   \<and> gps_tag_name example_runtime (KInt 9999) \<noteq> KStr ''9999''
   \<and> get_gps_info example_runtime [(''GPSInfo'', PDict [(KInt 9999, PInt 1)])]
     = Inr (Some \<lparr>raw = [(KInt 9999, PInt 1)], latitude = None, longitude = None\<rparr>)
   \<and> \<not> json_safe (PDict [(KInt 9999, PInt 1)])"
proof -
  have a: "exif_tag_name example_runtime (KInt 9999) = ''9999''"
    by (simp add: example_TAGS text_eval)
  have b: "exif_tag_name example_runtime (KInt 272) = ''Model''"
    by (simp add: example_TAGS)
  have c: "gps_tag_name example_runtime (KInt 2) = KStr ''GPSLatitude''"
    by (simp add: example_GPSTAGS)
  have d: "gps_tag_name example_runtime (KInt 9999) = KInt 9999"
    by (simp add: example_GPSTAGS)
  have e: "get_gps_info example_runtime [(''GPSInfo'', PDict [(KInt 9999, PInt 1)])]
     = Inr (Some \<lparr>raw = [(KInt 9999, PInt 1)], latitude = None, longitude = None\<rparr>)"
    by (simp add: report_eval)
  have f: "\<not> json_safe (PDict [(KInt 9999, PInt 1)])"
    by simp
  from a b c d e f show ?thesis by simp
qed

end
